theory Spec2Isabelle
  imports Complex_Main "HOL-Library.Sublist"
begin

section \<open>OpenCV matrices as the processor uses them\<close>

text \<open>
  A \<^verbatim>\<open>cv.Mat\<close> is a container: a row count, a column count, an element type and a
  row-major buffer. The accessors of the source (\<^verbatim>\<open>rows\<close>, \<^verbatim>\<open>cols\<close>, \<^verbatim>\<open>channels()\<close>,
  \<^verbatim>\<open>intAt\<close>, \<^verbatim>\<open>ucharPtr\<close>, \<^verbatim>\<open>intPtr\<close>) are modelled on that buffer. A matrix made by
  OpenCV always holds rows * cols * channels elements, so the reads of the loops on such
  a matrix are in range. A read outside the buffer returns whatever the heap holds
  there; the model fixes it to 0. Only the palette loop of the second quantizer, which
  reads a matrix that was never filled, makes such reads.
\<close>

datatype mat_type = CV_8UC1 | CV_8UC3 | CV_8UC4 | CV_32S | CV_32SC2 | CV_32F

record mat =
  rows :: nat
  cols :: nat
  mtype :: mat_type
  mdata :: "int list"

fun channels :: "mat \<Rightarrow> nat" where
  "channels m = (case mtype m of CV_8UC1 \<Rightarrow> 1 | CV_8UC3 \<Rightarrow> 3 | CV_8UC4 \<Rightarrow> 4
                 | CV_32S \<Rightarrow> 1 | CV_32SC2 \<Rightarrow> 2 | CV_32F \<Rightarrow> 1)"

definition elem :: "mat \<Rightarrow> nat \<Rightarrow> int" where
  "elem m i = (if i < length (mdata m) then mdata m ! i else 0)"

text \<open>
  \<^verbatim>\<open>intAt(i, j)\<close> reads the \<open>j\<close>-th number of row \<open>i\<close> (a row holds cols * channels
  numbers); \<^verbatim>\<open>ucharPtr(i, j)[c]\<close> and \<^verbatim>\<open>intPtr(i, j)[c]\<close> address channel \<open>c\<close> of the
  element in row \<open>i\<close>, column \<open>j\<close>.
\<close>

definition intAt :: "mat \<Rightarrow> nat \<Rightarrow> nat \<Rightarrow> int" where
  "intAt m i j = elem m (i * (cols m * channels m) + j)"

definition ucharPtr :: "mat \<Rightarrow> nat \<Rightarrow> nat \<Rightarrow> nat \<Rightarrow> int" where
  "ucharPtr m i j c = elem m ((i * cols m + j) * channels m + c)"

definition putc :: "mat \<Rightarrow> nat \<Rightarrow> nat \<Rightarrow> nat \<Rightarrow> int \<Rightarrow> mat" where
  "putc m i j c v = m\<lparr>mdata := (mdata m)[(i * cols m + j) * channels m + c := v]\<rparr>"

definition put :: "mat \<Rightarrow> nat \<Rightarrow> nat \<Rightarrow> int \<Rightarrow> mat" where
  "put m i j v = putc m i j 0 v"

definition zeros :: "nat \<Rightarrow> nat \<Rightarrow> mat_type \<Rightarrow> mat" where
  "zeros h w t = \<lparr>rows = h, cols = w, mtype = t,
     mdata = replicate (h * w * (case t of CV_8UC1 \<Rightarrow> 1 | CV_8UC3 \<Rightarrow> 3 | CV_8UC4 \<Rightarrow> 4
                                   | CV_32S \<Rightarrow> 1 | CV_32SC2 \<Rightarrow> 2 | CV_32F \<Rightarrow> 1)) 0\<rparr>"

text \<open>The order in which \<^verbatim>\<open>for (y ...) for (x ...)\<close> visits the pixels.\<close>

definition scan :: "nat \<Rightarrow> nat \<Rightarrow> (nat \<times> nat) list" where
  "scan height width = concat (map (\<lambda>y. map (\<lambda>x. (y, x)) [0..<width]) [0..<height])"

section \<open>Points, palette entries, regions, thrown values\<close>

record point =
  pt_x :: int
  pt_y :: int

record rgb =
  rgb_r :: int
  rgb_g :: int
  rgb_b :: int

record palette_entry =
  entry_id :: int
  entry_rgb :: rgb
  hex :: string
  name :: string

record region =
  region_id :: int
  contour :: "point list"
  centroid :: "int option \<times> int option"
  area :: rat
  colorId :: int
  color :: "palette_entry option"

text \<open>
  What a \<^verbatim>\<open>throw\<close> carries: one of the JavaScript error classes with its message, or
  any other value thrown by the OpenCV binding, kept by its string form.
\<close>

datatype js_error = Error string | RangeError string | TypeError string | Thrown string

fun toString :: "js_error \<Rightarrow> string" where
  "toString (Error s) = ''Error: '' @ s"
| "toString (RangeError s) = ''RangeError: '' @ s"
| "toString (TypeError s) = ''TypeError: '' @ s"
| "toString (Thrown s) = s"

section \<open>The OpenCV calls, taken as parameters\<close>

text \<open>
  The image-processing routines of OpenCV.js are not part of the repository. The model
  takes them as the fields of an environment. The calls that the source wraps in a
  \<^verbatim>\<open>try\<close> of their own (colour conversion, k-means, watershed, the preprocessing chain)
  may throw; the others are total.
\<close>

datatype morph_shape = MORPH_RECT | MORPH_CROSS | MORPH_ELLIPSE

datatype conversion = COLOR_RGBA2RGB | COLOR_RGB2Lab

record imageData =
  img_width :: nat
  img_height :: nat
  img_data :: "int list"

record cv_env =
  loaded :: bool
  preprocess :: "imageData \<Rightarrow> int \<Rightarrow> js_error + imageData"
  cvtColor :: "mat \<Rightarrow> conversion \<Rightarrow> js_error + mat"
  kmeans :: "mat \<Rightarrow> int \<Rightarrow> js_error + mat \<times> rat list list"
  getStructuringElement :: "morph_shape \<Rightarrow> int \<Rightarrow> int \<Rightarrow> mat"
  erode :: "mat \<Rightarrow> mat \<Rightarrow> mat"
  connectedComponents :: "mat \<Rightarrow> int \<Rightarrow> int \<times> mat"
  watershed :: "mat \<Rightarrow> mat \<Rightarrow> js_error + mat"
  findContours :: "mat \<Rightarrow> mat list"
  moments :: "mat \<Rightarrow> rat \<times> rat \<times> rat"
  contourArea :: "mat \<Rightarrow> rat"

section \<open>The processor object\<close>

record processor =
  currentStep :: nat
  totalSteps :: nat
  markerToColor :: "(int \<rightharpoonup> int) option"

definition constructor :: processor where
  "constructor = \<lparr>currentStep = 0, totalSteps = 5, markerToColor = None\<rparr>"

section \<open>Numbers as JavaScript prints and rounds them\<close>

definition digit :: "nat \<Rightarrow> char" where
  "digit d = ''0123456789abcdef'' ! d"

fun show_nat :: "nat \<Rightarrow> string" where
  "show_nat k = (if k < 10 then [digit k] else show_nat (k div 10) @ [digit (k mod 10)])"

definition show_int :: "int \<Rightarrow> string" where
  "show_int i = (if i < 0 then ''-'' @ show_nat (nat (- i)) else show_nat (nat i))"

text \<open>\<^verbatim>\<open>Math.round\<close>: the nearest integer, a half rounded up.\<close>

definition Math_round :: "rat \<Rightarrow> int" where
  "Math_round v = \<lfloor>v + 1 / 2\<rfloor>"

text \<open>
  \<^verbatim>\<open>Math.round(a / b)\<close> as the centroid uses it: with a zero denominator the quotient is
  NaN or an infinity, and so is the result (\<open>None\<close>).
\<close>

definition round_quotient :: "rat \<Rightarrow> rat \<Rightarrow> int option" where
  "round_quotient a b = (if b = 0 then None else Some (Math_round (a / b)))"

text \<open>
  \<^verbatim>\<open>toFixed(2)\<close>: the sign, then the nearest multiple of 1/100 of the absolute value
  (of two equally near the larger), printed with two decimals.
\<close>

definition toFixed2 :: "rat \<Rightarrow> string" where
  "toFixed2 v =
     (let k = nat \<lfloor>\<bar>v\<bar> * 100 + 1 / 2\<rfloor>
      in (if v < 0 then ''-'' else []) @ show_nat (k div 100) @ ''.''
           @ [digit (k mod 100 div 10), digit (k mod 10)])"

section \<open>Utils: colour helpers\<close>

text \<open>\<^verbatim>\<open>x.toString(16)\<close> on a channel value.\<close>

fun toString16 :: "nat \<Rightarrow> string" where
  "toString16 k = (if k < 16 then [digit k] else toString16 (k div 16) @ [digit (k mod 16)])"

definition hex2 :: "int \<Rightarrow> string" where
  "hex2 v = (let h = (if v < 0 then ''-'' @ toString16 (nat (- v)) else toString16 (nat v))
             in if length h = 1 then ''0'' @ h else h)"

definition rgbToHex :: "int \<Rightarrow> int \<Rightarrow> int \<Rightarrow> string" where
  "rgbToHex r g b = ''#'' @ hex2 r @ hex2 g @ hex2 b"

definition getColorName :: "int \<Rightarrow> int \<Rightarrow> int \<Rightarrow> string" where
  "getColorName r g b =
     (let mx = max (max r g) b; mn = min (min r g) b;
          brightness = (of_int (r + g + b) :: rat) / 3
      in if mx - mn < 30 then
           (if brightness < 50 then ''Black''
            else if brightness < 100 then ''Dark Gray''
            else if brightness < 180 then ''Gray''
            else if brightness < 230 then ''Light Gray''
            else ''White'')
         else if r > g \<and> r > b then
           (if g > 100 \<and> b < 100 then ''Yellow''
            else if g < 100 \<and> b > 100 then ''Purple''
            else if r > 180 then ''Red'' else ''Dark Red'')
         else if g > r \<and> g > b then
           (if b > 100 \<and> r < 100 then ''Cyan''
            else if r > 100 \<and> b < 100 then ''Yellow''
            else if g > 180 then ''Green'' else ''Dark Green'')
         else
           (if r > 100 \<and> g < 100 then ''Purple''
            else if g > 100 \<and> r < 100 then ''Cyan''
            else if b > 180 then ''Blue'' else ''Dark Blue''))"

section \<open>ColorQuantizer.quantize\<close>

definition matFromImageData :: "imageData \<Rightarrow> mat" where
  "matFromImageData imageData =
     \<lparr>rows = img_height imageData, cols = img_width imageData, mtype = CV_8UC4,
      mdata = img_data imageData\<rparr>"

record color_sum =
  sum_r :: int
  sum_g :: int
  sum_b :: int
  sum_count :: int

text \<open>The loop that sums the original RGB values per cluster.\<close>

definition add_pixel :: "mat \<Rightarrow> mat \<Rightarrow> int \<Rightarrow> color_sum list \<Rightarrow> nat \<Rightarrow> color_sum list" where
  "add_pixel rgbm lbls numColors colorSums i =
     (let label = intAt lbls i 0
      in if label \<ge> 0 \<and> label < numColors then
           (let y = i div cols rgbm; x = i mod cols rgbm; s = colorSums ! nat label
            in colorSums[nat label := s\<lparr>sum_r := sum_r s + ucharPtr rgbm y x 0,
                                         sum_g := sum_g s + ucharPtr rgbm y x 1,
                                         sum_b := sum_b s + ucharPtr rgbm y x 2,
                                         sum_count := sum_count s + 1\<rparr>])
         else colorSums)"

definition sumColors :: "mat \<Rightarrow> mat \<Rightarrow> int \<Rightarrow> color_sum list" where
  "sumColors rgbm lbls numColors =
     foldl (add_pixel rgbm lbls numColors)
       (replicate (nat numColors) \<lparr>sum_r = 0, sum_g = 0, sum_b = 0, sum_count = 0\<rparr>)
       [0..<rows rgbm * cols rgbm]"

definition avgRgb :: "color_sum \<Rightarrow> rgb" where
  "avgRgb s =
     (if sum_count s > 0 then
        \<lparr>rgb_r = Math_round (of_int (sum_r s) / of_int (sum_count s)),
         rgb_g = Math_round (of_int (sum_g s) / of_int (sum_count s)),
         rgb_b = Math_round (of_int (sum_b s) / of_int (sum_count s))\<rparr>
      else \<lparr>rgb_r = 128, rgb_g = 128, rgb_b = 128\<rparr>)"

definition paletteEntry :: "color_sum list \<Rightarrow> nat \<Rightarrow> palette_entry" where
  "paletteEntry colorSums i =
     (let c = avgRgb (colorSums ! i)
      in \<lparr>entry_id = int i + 1, entry_rgb = c,
          hex = rgbToHex (rgb_r c) (rgb_g c) (rgb_b c),
          name = getColorName (rgb_r c) (rgb_g c) (rgb_b c)\<rparr>)"

definition buildPalette :: "mat \<Rightarrow> mat \<Rightarrow> int \<Rightarrow> palette_entry list" where
  "buildPalette rgbm lbls numColors =
     map (paletteEntry (sumColors rgbm lbls numColors)) [0..<nat numColors]"

text \<open>
  The loop that paints the quantized image. \<^verbatim>\<open>palette[label].rgb\<close> throws a TypeError
  when the palette has no entry at \<^verbatim>\<open>label\<close>; the message is the one of the V8 engine
  (other engines word it differently).
\<close>

fun paint :: "palette_entry list \<Rightarrow> mat \<Rightarrow> nat list \<Rightarrow> mat \<Rightarrow> js_error + mat" where
  "paint pal lbls [] q = Inr q"
| "paint pal lbls (i # is) q =
     (let label = intAt lbls i 0; y = i div cols q; x = i mod cols q
      in if 0 \<le> label \<and> label < int (length pal) then
           (let c = entry_rgb (pal ! nat label)
            in paint pal lbls is
                 (putc (putc (putc q y x 0 (rgb_r c)) y x 1 (rgb_g c)) y x 2 (rgb_b c)))
         else Inl (TypeError ''Cannot read properties of undefined (reading 'rgb')''))"

record quantize_result =
  quantized :: mat
  palette :: "palette_entry list"
  labels :: mat

text \<open>
  The k-means samples: one row per pixel with its three Lab values (what both the
  \<^verbatim>\<open>reshape\<close> and its fallback loop build).
\<close>

definition labSamples :: "mat \<Rightarrow> mat" where
  "labSamples lab =
     \<lparr>rows = rows lab * cols lab, cols = 3, mtype = CV_32F,
      mdata = concat (map (\<lambda>(y, x). [ucharPtr lab y x 0, ucharPtr lab y x 1,
                                        ucharPtr lab y x 2])
                       (scan (rows lab) (cols lab)))\<rparr>"

definition quantize :: "cv_env \<Rightarrow> imageData \<Rightarrow> int \<Rightarrow> js_error + quantize_result" where
  "quantize env imageData numColors =
     (if \<not> loaded env then Inl (Error ''OpenCV.js is not loaded'')
      else
        let src = matFromImageData imageData
        in case (if channels src = 4 then cvtColor env src COLOR_RGBA2RGB else Inr src) of
             Inl e \<Rightarrow> Inl (Error (''RGB conversion failed: '' @ toString e))
           | Inr rgbm \<Rightarrow>
          (case cvtColor env rgbm COLOR_RGB2Lab of
             Inl e \<Rightarrow> Inl (Error (''Lab conversion failed: '' @ toString e))
           | Inr lab \<Rightarrow>
          (case kmeans env (labSamples lab) numColors of
             Inl e \<Rightarrow> Inl (Error (''K-Means clustering failed: '' @ toString e))
           | Inr (lbls, centers) \<Rightarrow>
               if numColors < 0 then Inl (RangeError ''Invalid array length'')
               else
                 (let pal = buildPalette rgbm lbls numColors;
                      totalPixels = rows rgbm * cols rgbm
                  in case paint pal lbls [0..<totalPixels]
                            (zeros (rows rgbm) (cols rgbm) CV_8UC3) of
                       Inl e \<Rightarrow> Inl e
                     | Inr q \<Rightarrow> Inr \<lparr>quantized = q, palette = pal, labels = lbls\<rparr>))))"

section \<open>The second ColorQuantizer, in js/svgGenerator.js\<close>

text \<open>
  The file of the SVG generator carries a class \<^verbatim>\<open>ColorQuantizer\<close> of its own. Its
  \<^verbatim>\<open>quantize\<close> calls the clustering without the centres argument, so its matrix
  \<^verbatim>\<open>centers\<close> stays the empty matrix it was created as, and builds each palette entry from
  \<^verbatim>\<open>centers.floatAt(i, 0..2)\<close> through \<^verbatim>\<open>labToRgb\<close>. The arithmetic of \<^verbatim>\<open>labToRgb\<close> is
  written over the reals; the source computes in double precision.
\<close>

definition floatAt :: "mat \<Rightarrow> nat \<Rightarrow> nat \<Rightarrow> real" where
  "floatAt m i j = of_int (intAt m i j)"

definition xyz_to_rgb :: "real \<Rightarrow> real" where
  "xyz_to_rgb v = (if v > 0.008856 then v ^ 3 else (v - 16 / 116) / 7.787)"

definition rgb_to_srgb :: "real \<Rightarrow> real" where
  "rgb_to_srgb v = (if v > 0.0031308 then 1.055 * (v powr (1 / 2.4)) - 0.055 else 12.92 * v)"

definition round_real :: "real \<Rightarrow> int" where
  "round_real v = \<lfloor>v + 1 / 2\<rfloor>"

definition labToRgb :: "real \<Rightarrow> real \<Rightarrow> real \<Rightarrow> rgb" where
  "labToRgb l a b =
     (let y0 = (l + 16) / 116; x0 = a / 500 + y0; z0 = y0 - b / 200;
          x = 95.047 * xyz_to_rgb x0 / 100;
          y = 100.000 * xyz_to_rgb y0 / 100;
          z = 108.883 * xyz_to_rgb z0 / 100;
          r = x * 3.2406 + y * - 1.5372 + z * - 0.4986;
          g = x * - 0.9689 + y * 1.8758 + z * 0.0415;
          bVal = x * 0.0557 + y * - 0.2040 + z * 1.0570
      in \<lparr>rgb_r = round_real (max 0 (min 1 (rgb_to_srgb r)) * 255),
          rgb_g = round_real (max 0 (min 1 (rgb_to_srgb g)) * 255),
          rgb_b = round_real (max 0 (min 1 (rgb_to_srgb bVal)) * 255)\<rparr>)"

definition centerEntry :: "mat \<Rightarrow> nat \<Rightarrow> palette_entry" where
  "centerEntry centers i =
     (let c = labToRgb (floatAt centers i 0) (floatAt centers i 1) (floatAt centers i 2)
      in \<lparr>entry_id = int i + 1, entry_rgb = c,
          hex = rgbToHex (rgb_r c) (rgb_g c) (rgb_b c),
          name = getColorName (rgb_r c) (rgb_g c) (rgb_b c)\<rparr>)"

fun paintPixels :: "palette_entry list \<Rightarrow> mat \<Rightarrow> (nat \<times> nat) list \<Rightarrow> mat \<Rightarrow> js_error + mat"
  where
  "paintPixels pal lbls [] q = Inr q"
| "paintPixels pal lbls ((y, x) # ps) q =
     (let label = intAt lbls (y * cols q + x) 0
      in if 0 \<le> label \<and> label < int (length pal) then
           (let c = entry_rgb (pal ! nat label)
            in paintPixels pal lbls ps
                 (putc (putc (putc q y x 0 (rgb_r c)) y x 1 (rgb_g c)) y x 2 (rgb_b c)))
         else Inl (TypeError ''Cannot read properties of undefined (reading 'rgb')''))"

definition quantize_svgGenerator :: "cv_env \<Rightarrow> imageData \<Rightarrow> int \<Rightarrow> js_error + quantize_result"
  where
  "quantize_svgGenerator env imageData numColors =
     (if \<not> loaded env then Inl (Error ''OpenCV.js is not loaded'')
      else
        let src = matFromImageData imageData
        in case (if channels src = 4 then cvtColor env src COLOR_RGBA2RGB else Inr src) of
             Inl e \<Rightarrow> Inl (Error (''RGB conversion failed: '' @ toString e))
           | Inr rgbm \<Rightarrow>
          (case cvtColor env rgbm COLOR_RGB2Lab of
             Inl e \<Rightarrow> Inl (Error (''Lab conversion failed: '' @ toString e))
           | Inr lab \<Rightarrow>
          (case kmeans env (labSamples lab) numColors of
             Inl e \<Rightarrow> Inl (Error (''K-Means clustering failed: '' @ toString e))
           | Inr (lbls, unused) \<Rightarrow>
               (let centers = zeros 0 0 CV_8UC1;
                    pal = map (centerEntry centers) [0..<nat numColors]
                in case paintPixels pal lbls (scan (rows lab) (cols lab))
                          (zeros (rows lab) (cols lab) CV_8UC3) of
                     Inl e \<Rightarrow> Inl e
                   | Inr q \<Rightarrow> Inr \<lparr>quantized = q, palette = pal, labels = lbls\<rparr>))))"

section \<open>WatershedProcessor.createMarkers\<close>

definition erodeSizes :: "string \<rightharpoonup> int" where
  "erodeSizes = map_of [(''low'', 5), (''medium'', 3), (''high'', 2), (''extreme'', 1)]"

text \<open>
  \<^verbatim>\<open>erodeSizes[complexity] || 3\<close>: a missing (or zero) entry gives 3. The table is a plain
  object, so a key that every object inherits finds a function or an object instead of a
  number (\<open>None\<close>): it is not replaced by 3, and the test \<^verbatim>\<open>erodeSize > 0\<close> fails on it.
\<close>

definition inherited_keys :: "string list" where
  "inherited_keys =
     [''constructor'', ''hasOwnProperty'', ''isPrototypeOf'', ''propertyIsEnumerable'',
      ''toLocaleString'', ''toString'', ''valueOf'', ''__proto__'', ''__defineGetter__'',
      ''__defineSetter__'', ''__lookupGetter__'', ''__lookupSetter__'']"

definition erodeSize_of :: "string \<Rightarrow> int option" where
  "erodeSize_of complexity =
     (case erodeSizes complexity of
        Some v \<Rightarrow> Some (if v = 0 then 3 else v)
      | None \<Rightarrow> if complexity \<in> set inherited_keys then None else Some 3)"

text \<open>The binary mask of one colour: 255 where the k-means label is \<open>colorIdx\<close>.\<close>

definition colorMask :: "mat \<Rightarrow> nat \<Rightarrow> nat \<Rightarrow> int \<Rightarrow> mat" where
  "colorMask lbls height width colorIdx =
     foldl (\<lambda>mask (y, x). if intAt lbls (y * width + x) 0 = colorIdx then put mask y x 255
                           else mask)
       (zeros height width CV_8UC1) (scan height width)"

definition erodeMask :: "cv_env \<Rightarrow> int option \<Rightarrow> mat \<Rightarrow> mat" where
  "erodeMask env erodeSize msk =
     (case erodeSize of
        Some e \<Rightarrow>
          if e > 0 then
            erode env msk (getStructuringElement env MORPH_ELLIPSE (e * 2 + 1) (e * 2 + 1))
          else msk
      | None \<Rightarrow> msk)"

record marker_state =
  markers :: mat
  m2c :: "int \<rightharpoonup> int"
  nextLabel :: int

text \<open>One round of the loop over the colours.\<close>

definition colorStep :: "cv_env \<Rightarrow> mat \<Rightarrow> nat \<Rightarrow> nat \<Rightarrow> int option \<Rightarrow> marker_state \<Rightarrow> int
    \<Rightarrow> marker_state" where
  "colorStep env lbls height width erodeSize st colorIdx =
     (let mask = erodeMask env erodeSize (colorMask lbls height width colorIdx);
          (numComponents, colorLabels) = connectedComponents env mask 8
      in \<lparr>markers =
            foldl (\<lambda>mk (y, x). let component = intAt colorLabels y x
                                in if component > 0
                                   then put mk y x (nextLabel st + component - 1) else mk)
              (markers st) (scan height width),
          m2c =
            foldl (\<lambda>m comp. m(nextLabel st + comp - 1 \<mapsto> colorIdx + 1))
              (m2c st) [1..numComponents - 1],
          nextLabel = nextLabel st + numComponents - 1\<rparr>)"

definition markerLoop :: "cv_env \<Rightarrow> mat \<Rightarrow> mat \<Rightarrow> int \<Rightarrow> string \<Rightarrow> marker_state" where
  "markerLoop env q lbls numColors complexity =
     foldl (colorStep env lbls (rows q) (cols q) (erodeSize_of complexity))
       \<lparr>markers = zeros (rows q) (cols q) CV_32S, m2c = Map.empty, nextLabel = 1\<rparr>
       [0..numColors - 1]"

text \<open>
  The method returns the marker image and stores the colour map on the instance
  (\<^verbatim>\<open>this._markerToColor = markerToColor\<close>): the model returns the image and the updated
  processor.
\<close>

definition createMarkers :: "cv_env \<Rightarrow> processor \<Rightarrow> mat \<Rightarrow> mat \<Rightarrow> int \<Rightarrow> string
    \<Rightarrow> mat \<times> processor" where
  "createMarkers env this q lbls numColors complexity =
     (let st = markerLoop env q lbls numColors complexity
      in (markers st, this\<lparr>markerToColor := Some (m2c st)\<rparr>))"

section \<open>The second WatershedProcessor, in js/utils.js\<close>








section \<open>WatershedProcessor.applyWatershed\<close>

definition applyWatershed :: "cv_env \<Rightarrow> mat \<Rightarrow> mat \<Rightarrow> js_error + mat" where
  "applyWatershed env q mk =
     (case (if channels q = 4 then cvtColor env q COLOR_RGBA2RGB
            else if channels q = 3 then Inr q
            else Inl (Error (''Unexpected channel count: '' @ show_nat (channels q)))) of
        Inl e \<Rightarrow> Inl (Error (''RGB preparation failed: '' @ toString e))
      | Inr rgbm \<Rightarrow>
          (let markers32 = (if mtype mk \<noteq> CV_32S then mk\<lparr>mtype := CV_32S\<rparr> else mk)
           in case watershed env rgbm markers32 of
                Inl e \<Rightarrow> Inl (Error (''cv.watershed failed: '' @ toString e))
              | Inr wm \<Rightarrow> Inr wm))"

section \<open>WatershedProcessor.extractRegions\<close>

text \<open>\<^verbatim>\<open>Set.add\<close>: a set that is iterated in insertion order.\<close>

definition set_add :: "int list \<Rightarrow> int \<Rightarrow> int list" where
  "set_add s v = (if v \<in> set s then s else s @ [v])"

definition uniqueLabels :: "mat \<Rightarrow> int list" where
  "uniqueLabels wm =
     foldl (\<lambda>s (y, x). let label = intAt wm y x in if label > 0 then set_add s label else s)
       [] (scan (rows wm) (cols wm))"

text \<open>The mask of one label and its pixel count, built by one pass over the map.\<close>

definition maskAndCount :: "mat \<Rightarrow> int \<Rightarrow> mat \<times> int" where
  "maskAndCount wm label =
     foldl (\<lambda>(mask, pixelCount) (y, x).
              if intAt wm y x = label then (put mask y x 255, pixelCount + 1)
              else (mask, pixelCount))
       (zeros (rows wm) (cols wm) CV_8UC1, 0) (scan (rows wm) (cols wm))"

definition contourToArray :: "mat \<Rightarrow> point list" where
  "contourToArray c = map (\<lambda>i. \<lparr>pt_x = intAt c i 0, pt_y = intAt c i 1\<rparr>) [0..<rows c]"

text \<open>\<^verbatim>\<open>markerToColor[label] || 1\<close>, then the clamp to the palette range.\<close>

definition colorIdOf :: "(int \<rightharpoonup> int) \<Rightarrow> int \<Rightarrow> nat \<Rightarrow> int" where
  "colorIdOf m label paletteLength =
     (let colorId = (case m label of None \<Rightarrow> 1 | Some v \<Rightarrow> if v = 0 then 1 else v)
      in if colorId < 1 \<or> colorId > int paletteLength then 1 else colorId)"

text \<open>\<^verbatim>\<open>palette[colorId - 1]\<close>, undefined outside the array.\<close>

definition paletteAt :: "palette_entry list \<Rightarrow> int \<Rightarrow> palette_entry option" where
  "paletteAt pal i = (if 0 \<le> i \<and> i < int (length pal) then Some (pal ! nat i) else None)"

text \<open>The body of \<^verbatim>\<open>uniqueLabels.forEach\<close>: the region of a label, if it gets one.\<close>

definition regionOf :: "cv_env \<Rightarrow> (int \<rightharpoonup> int) \<Rightarrow> mat \<Rightarrow> palette_entry list \<Rightarrow> int \<Rightarrow> int
    \<Rightarrow> region option" where
  "regionOf env m wm pal minRegionSize label =
     (let (mask, pixelCount) = maskAndCount wm label
      in if pixelCount < minRegionSize then None
         else
           (let contours = findContours env mask
            in if length contours > 0 then
                 (let c = contours ! 0;
                      cid = colorIdOf m label (length pal);
                      (m00, m10, m01) = moments env c
                  in Some \<lparr>region_id = label, contour = contourToArray c,
                           centroid = (round_quotient m10 m00, round_quotient m01 m00),
                           area = contourArea env c, colorId = cid,
                           color = paletteAt pal (cid - 1)\<rparr>)
               else None))"

definition extractRegions :: "cv_env \<Rightarrow> processor \<Rightarrow> mat \<Rightarrow> mat \<Rightarrow> palette_entry list \<Rightarrow> int
    \<Rightarrow> region list" where
  "extractRegions env this wm q pal minRegionSize =
     (let m = (case markerToColor this of None \<Rightarrow> Map.empty | Some mc \<Rightarrow> mc)
      in foldl (\<lambda>regions label.
                  case regionOf env m wm pal minRegionSize label of
                    None \<Rightarrow> regions
                  | Some r \<Rightarrow> regions @ [r])
           [] (uniqueLabels wm))"

section \<open>WatershedProcessor.process\<close>

record options =
  opt_colorCount :: "int option"
  opt_complexity :: "string option"
  opt_minRegionSize :: "int option"
  opt_maxSize :: "int option"

record process_result =
  regions :: "region list"
  res_palette :: "palette_entry list"
  res_width :: nat
  res_height :: nat

text \<open>The destructuring defaults of \<^verbatim>\<open>process\<close>.\<close>

definition colorCount_of :: "options \<Rightarrow> int" where
  "colorCount_of opts = (case opt_colorCount opts of None \<Rightarrow> 14 | Some v \<Rightarrow> v)"

definition complexity_of :: "options \<Rightarrow> string" where
  "complexity_of opts = (case opt_complexity opts of None \<Rightarrow> ''high'' | Some v \<Rightarrow> v)"

definition minRegionSize_of :: "options \<Rightarrow> int" where
  "minRegionSize_of opts = (case opt_minRegionSize opts of None \<Rightarrow> 100 | Some v \<Rightarrow> v)"

definition maxSize_of :: "options \<Rightarrow> int" where
  "maxSize_of opts = (case opt_maxSize opts of None \<Rightarrow> 1024 | Some v \<Rightarrow> v)"

type_synonym progress = "(nat \<times> string) list"

text \<open>
  The pipeline returns the processor as the run leaves it, the progress updates handed to
  the callback so far, and the result or the error thrown.
\<close>

definition process :: "cv_env \<Rightarrow> processor \<Rightarrow> imageData \<Rightarrow> options
    \<Rightarrow> processor \<times> progress \<times> (js_error + process_result)" where
  "process env this imageData opts =
     (if \<not> loaded env then
        (this, [], Inl (Error ''OpenCV.js is not loaded. Please wait for it to load.''))
      else
        let log1 = [(0, ''Preprocessing image...'')]
        in case preprocess env imageData (maxSize_of opts) of
             Inl e \<Rightarrow> (this, log1, Inl (Error (''Image preprocessing failed: '' @ toString e)))
           | Inr preprocessed \<Rightarrow>
          (let log2 = log1 @ [(20, ''Quantizing colors...'')]
           in case quantize env preprocessed (colorCount_of opts) of
                Inl e \<Rightarrow> (this, log2, Inl (Error (''Color quantization failed: '' @ toString e)))
              | Inr qr \<Rightarrow>
          (let log3 = log2 @ [(40, ''Creating markers...'')];
               (mk, this') = createMarkers env this (quantized qr) (labels qr)
                               (colorCount_of opts) (complexity_of opts);
               log4 = log3 @ [(60, ''Applying watershed...'')]
           in case applyWatershed env (quantized qr) mk of
                Inl e \<Rightarrow>
                  (this', log4, Inl (Error (''Watershed algorithm failed: '' @ toString e)))
              | Inr watershedMap \<Rightarrow>
          (let log5 = log4 @ [(80, ''Extracting regions...'')];
               rs = extractRegions env this' watershedMap (quantized qr) (palette qr)
                      (minRegionSize_of opts)
           in (this', log5 @ [(100, ''Complete!'')],
               Inr \<lparr>regions = rs, res_palette = palette qr,
                    res_width = img_width preprocessed,
                    res_height = img_height preprocessed\<rparr>)))))"

section \<open>App.generate\<close>

datatype toast = Toast string string

text \<open>
  What \<^verbatim>\<open>generate\<close> leaves behind: the stored result (\<^verbatim>\<open>state.currentResult\<close>) and the
  toast shown. The image data is what \<^verbatim>\<open>Utils.getImageData\<close> read from the current
  image; rendering the SVG and the legend is DOM work outside the model.
\<close>

definition generate :: "cv_env \<Rightarrow> imageData option \<Rightarrow> options
    \<Rightarrow> process_result option \<times> toast option" where
  "generate env currentImage settings =
     (case currentImage of
        None \<Rightarrow> (None, None)
      | Some imageData \<Rightarrow>
          (case snd (snd (process env constructor imageData settings)) of
             Inl e \<Rightarrow> (None, Some (Toast ''Error generating paint-by-numbers'' ''error''))
           | Inr result \<Rightarrow>
               if length (regions result) = 0 then
                 (Some result,
                  Some (Toast
                    ''No regions detected. Try different settings or a different image.''
                    ''warning''))
               else
                 (Some result,
                  Some (Toast ''Paint-by-numbers generated successfully!'' ''success''))))"

section \<open>SVGGenerator.contourToPathData\<close>

text \<open>
  The control points are computed in exact arithmetic. The source computes them in
  double precision and prints two decimals; for integer pixel coordinates the exact value
  is a multiple of 1/6 and never lies at a rounding boundary of the second decimal, so
  the printed digits are the same.
\<close>

definition catmullToBezier :: "rat \<Rightarrow> point \<Rightarrow> point \<Rightarrow> point \<Rightarrow> point \<Rightarrow> rat \<times> rat \<times> rat \<times> rat"
  where
  "catmullToBezier alpha p0 p1 p2 p3 =
     (of_int (pt_x p1) + of_int (pt_x p2 - pt_x p0) * alpha / 3,
      of_int (pt_y p1) + of_int (pt_y p2 - pt_y p0) * alpha / 3,
      of_int (pt_x p2) - of_int (pt_x p3 - pt_x p1) * alpha / 3,
      of_int (pt_y p2) - of_int (pt_y p3 - pt_y p1) * alpha / 3)"

text \<open>\<^verbatim>\<open>pt = i => contour[(i + n) % n]\<close>; the argument is never below -1.\<close>

definition pt :: "point list \<Rightarrow> int \<Rightarrow> point" where
  "pt c i = c ! nat ((i + int (length c)) mod int (length c))"

definition curveTo :: "point list \<Rightarrow> string \<Rightarrow> int \<Rightarrow> string" where
  "curveTo c pathData i =
     (let (cp1x, cp1y, cp2x, cp2y) =
            catmullToBezier (1 / 2) (pt c (i - 1)) (pt c i) (pt c (i + 1)) (pt c (i + 2));
          next = pt c (i + 1)
      in pathData @ '' C '' @ toFixed2 cp1x @ '' '' @ toFixed2 cp1y @ '', ''
           @ toFixed2 cp2x @ '' '' @ toFixed2 cp2y @ '', ''
           @ show_int (pt_x next) @ '' '' @ show_int (pt_y next))"

definition lineTo :: "point list \<Rightarrow> string \<Rightarrow> nat \<Rightarrow> string" where
  "lineTo c d i = d @ '' L '' @ show_int (pt_x (c ! i)) @ '' '' @ show_int (pt_y (c ! i))"

definition contourToPathData :: "point list \<Rightarrow> string" where
  "contourToPathData c =
     (if length c = 0 then []
      else if length c < 3 then
        foldl (lineTo c) (''M '' @ show_int (pt_x (c ! 0)) @ '' '' @ show_int (pt_y (c ! 0)))
          [1..<length c] @ '' Z''
      else
        foldl (curveTo c)
          (''M '' @ show_int (pt_x (pt c 0)) @ '' '' @ show_int (pt_y (pt c 0)))
          [0..int (length c) - 1] @ '' Z'')"

section \<open>The specification's wording, for comparison with the code\<close>

text \<open>The pixels of the label map that carry a label, as a mask and as a count.\<close>

definition labelMask :: "mat \<Rightarrow> int \<Rightarrow> mat" where
  "labelMask wm label =
     \<lparr>rows = rows wm, cols = cols wm, mtype = CV_8UC1,
      mdata = map (\<lambda>(y, x). if intAt wm y x = label then 255 else 0)
                (scan (rows wm) (cols wm))\<rparr>"

definition pixelCount :: "mat \<Rightarrow> int \<Rightarrow> nat" where
  "pixelCount wm label =
     length (filter (\<lambda>(y, x). intAt wm y x = label) (scan (rows wm) (cols wm)))"

text \<open>The colour map that \<^verbatim>\<open>extractRegions\<close> finds on the instance.\<close>

definition colorMap :: "processor \<Rightarrow> (int \<rightharpoonup> int)" where
  "colorMap this = (case markerToColor this of None \<Rightarrow> Map.empty | Some mc \<Rightarrow> mc)"

text \<open>
  The closed Catmull-Rom spline through the polygon, segment by segment: the neighbours
  of vertex \<open>i\<close> wrap around, the tension is 1/2, and the segment from \<open>p1\<close> to \<open>p2\<close> is the
  cubic Bezier curve with control points \<open>p1 + (p2 - p0) * alpha / 3\<close> and
  \<open>p2 - (p3 - p1) * alpha / 3\<close>.
\<close>

definition spec_segment :: "point list \<Rightarrow> nat \<Rightarrow> string" where
  "spec_segment c i =
     (let n = length c;
          p0 = c ! ((i + n - 1) mod n); p1 = c ! i;
          p2 = c ! ((i + 1) mod n); p3 = c ! ((i + 2) mod n);
          alpha = (1 / 2 :: rat)
      in '' C '' @ toFixed2 (of_int (pt_x p1) + of_int (pt_x p2 - pt_x p0) * alpha / 3)
          @ '' '' @ toFixed2 (of_int (pt_y p1) + of_int (pt_y p2 - pt_y p0) * alpha / 3)
          @ '', '' @ toFixed2 (of_int (pt_x p2) - of_int (pt_x p3 - pt_x p1) * alpha / 3)
          @ '' '' @ toFixed2 (of_int (pt_y p2) - of_int (pt_y p3 - pt_y p1) * alpha / 3)
          @ '', '' @ show_int (pt_x p2) @ '' '' @ show_int (pt_y p2))"

definition spec_moveTo :: "point \<Rightarrow> string" where
  "spec_moveTo p = ''M '' @ show_int (pt_x p) @ '' '' @ show_int (pt_y p)"

definition spec_spline_path :: "point list \<Rightarrow> string" where
  "spec_spline_path c =
     spec_moveTo (c ! 0) @ concat (map (spec_segment c) [0..<length c]) @ '' Z''"

text \<open>The straight-edged closed path: a move to the first point, a line to each other
  point, and the closing command.\<close>

definition spec_straight_path :: "point list \<Rightarrow> string" where
  "spec_straight_path c =
     spec_moveTo (c ! 0)
       @ concat (map (\<lambda>p. '' L '' @ show_int (pt_x p) @ '' '' @ show_int (pt_y p)) (tl c))
       @ '' Z''"

text \<open>
  The pixels assigned to a cluster, a channel of the original image at a pixel, and the
  rounded average of a channel over a list of pixels.
\<close>

definition cluster :: "mat \<Rightarrow> mat \<Rightarrow> int \<Rightarrow> nat list" where
  "cluster rgbm lbls i = filter (\<lambda>p. intAt lbls p 0 = i) [0..<rows rgbm * cols rgbm]"

definition channel :: "mat \<Rightarrow> nat \<Rightarrow> nat \<Rightarrow> int" where
  "channel rgbm c p = ucharPtr rgbm (p div cols rgbm) (p mod cols rgbm) c"

definition spec_average :: "mat \<Rightarrow> nat list \<Rightarrow> nat \<Rightarrow> int" where
  "spec_average rgbm ps c =
     Math_round (of_int (sum_list (map (channel rgbm c) ps)) / of_nat (length ps))"

text \<open>
  Marker construction in the specification's words. For one colour index: the mask of
  the pixels that carry the index, eroded by the ellipse that fits the square of side
  \<open>2 r + 1\<close> (the disk of radius \<open>r\<close>), and labelled with 8-connectivity. The radius of a
  complexity level is 5, 3, 2 or 1.
\<close>

definition spec_radius :: "string \<rightharpoonup> int" where
  "spec_radius = map_of [(''low'', 5), (''medium'', 3), (''high'', 2), (''extreme'', 1)]"

definition spec_mask :: "mat \<Rightarrow> nat \<Rightarrow> nat \<Rightarrow> int \<Rightarrow> mat" where
  "spec_mask lbls h w c =
     \<lparr>rows = h, cols = w, mtype = CV_8UC1,
      mdata = map (\<lambda>(y, x). if intAt lbls (y * w + x) 0 = c then 255 else 0) (scan h w)\<rparr>"

definition spec_components :: "cv_env \<Rightarrow> mat \<Rightarrow> nat \<Rightarrow> nat \<Rightarrow> int \<Rightarrow> int \<Rightarrow> int \<times> mat" where
  "spec_components env lbls h w r c =
     connectedComponents env
       (erode env (spec_mask lbls h w c)
          (getStructuringElement env MORPH_ELLIPSE (2 * r + 1) (2 * r + 1)))
       8"

text \<open>
  Given, for every colour, the result \<open>cc c\<close> of its labelling (the number of labels, the
  background included, and the label image): the number of labels of a colour, the label
  of a pixel, the first marker id of a colour (one more than the number of components of
  the colours before it), and the marker id of component \<open>k\<close> of colour \<open>c\<close>.
\<close>

definition component_count :: "(int \<Rightarrow> int \<times> mat) \<Rightarrow> int \<Rightarrow> int" where
  "component_count cc c = fst (cc c)"

definition component_at :: "(int \<Rightarrow> int \<times> mat) \<Rightarrow> int \<Rightarrow> nat \<Rightarrow> nat \<Rightarrow> int" where
  "component_at cc c y x = intAt (snd (cc c)) y x"

definition first_id :: "(int \<Rightarrow> int \<times> mat) \<Rightarrow> int \<Rightarrow> int" where
  "first_id cc c = 1 + sum_list (map (\<lambda>c'. component_count cc c' - 1) [0..c - 1])"

definition marker_id :: "(int \<Rightarrow> int \<times> mat) \<Rightarrow> int \<Rightarrow> int \<Rightarrow> int" where
  "marker_id cc c k = first_id cc c + k - 1"

text \<open>The marker of a pixel and the colour map after the first \<open>n\<close> colours.\<close>

fun marker_after :: "(int \<Rightarrow> int \<times> mat) \<Rightarrow> nat \<Rightarrow> nat \<Rightarrow> nat \<Rightarrow> int" where
  "marker_after cc 0 y x = 0"
| "marker_after cc (Suc n) y x =
     (if component_at cc (int n) y x > 0
      then marker_id cc (int n) (component_at cc (int n) y x)
      else marker_after cc n y x)"

fun map_after :: "(int \<Rightarrow> int \<times> mat) \<Rightarrow> nat \<Rightarrow> (int \<rightharpoonup> int)" where
  "map_after cc 0 = Map.empty"
| "map_after cc (Suc n) =
     (\<lambda>i. if first_id cc (int n) \<le> i \<and> i \<le> first_id cc (int n) + component_count cc (int n) - 2
            then Some (int n + 1) else map_after cc n i)"

text \<open>The labelling that \<^verbatim>\<open>createMarkers\<close> runs for a colour.\<close>

definition colorComponents :: "cv_env \<Rightarrow> mat \<Rightarrow> nat \<Rightarrow> nat \<Rightarrow> int option \<Rightarrow> int \<Rightarrow> int \<times> mat"
  where
  "colorComponents env lbls h w erodeSize c =
     connectedComponents env (erodeMask env erodeSize (colorMask lbls h w c)) 8"

section \<open>What the OpenCV calls guarantee\<close>

text \<open>
  Connected-component labelling counts the background, so its count is at least 1, and
  its labels stay below the count. Flooding only spreads the ids of the seeds: every
  positive label of the flooded map is a label of the marker image. Colour conversion
  rejects a matrix without pixels, and clustering rejects a cluster count of zero or less.
\<close>

definition components_in_range :: "cv_env \<Rightarrow> bool" where
  "components_in_range env \<longleftrightarrow>
     (\<forall>m connectivity.
        1 \<le> fst (connectedComponents env m connectivity)
        \<and> (\<forall>v \<in> set (mdata (snd (connectedComponents env m connectivity))).
              v < fst (connectedComponents env m connectivity)))"

definition flood_keeps_ids :: "cv_env \<Rightarrow> bool" where
  "flood_keeps_ids env \<longleftrightarrow>
     (\<forall>rgbm mk wm. watershed env rgbm mk = Inr wm \<longrightarrow>
        (\<forall>v \<in> set (mdata wm). 0 < v \<longrightarrow> v \<in> set (mdata mk)))"

definition rejects_empty :: "cv_env \<Rightarrow> bool" where
  "rejects_empty env \<longleftrightarrow> (\<forall>m code. rows m * cols m = 0 \<longrightarrow> isl (cvtColor env m code))"

definition rejects_bad_count :: "cv_env \<Rightarrow> bool" where
  "rejects_bad_count env \<longleftrightarrow> (\<forall>samples k. k \<le> 0 \<longrightarrow> isl (kmeans env samples k))"

section \<open>A small OpenCV for worked examples\<close>

text \<open>
  Stand-ins for the OpenCV calls, good for images of a few pixels in which every colour
  forms one blob: the colour conversion drops the alpha channel, the clustering separates
  dark from bright pixels, the erosion keeps the mask, the labelling finds one component,
  the flooding leaves the seeds as they are, and the contour of a mask lists its pixels.
\<close>

fun drop_alpha :: "int list \<Rightarrow> int list" where
  "drop_alpha (r # g # b # a # rest) = r # g # b # drop_alpha rest"
| "drop_alpha rest = []"

definition nonzero :: "mat \<Rightarrow> bool" where
  "nonzero m \<longleftrightarrow> (\<exists>v \<in> set (mdata m). v \<noteq> 0)"

definition toy_cvtColor :: "mat \<Rightarrow> conversion \<Rightarrow> js_error + mat" where
  "toy_cvtColor m code =
     (case code of
        COLOR_RGBA2RGB \<Rightarrow>
          Inr \<lparr>rows = rows m, cols = cols m, mtype = CV_8UC3, mdata = drop_alpha (mdata m)\<rparr>
      | COLOR_RGB2Lab \<Rightarrow> Inr m)"

definition toy_kmeans :: "mat \<Rightarrow> int \<Rightarrow> js_error + mat \<times> rat list list" where
  "toy_kmeans samples k =
     Inr (\<lparr>rows = rows samples, cols = 1, mtype = CV_32S,
           mdata = map (\<lambda>i. if intAt samples i 0 < 128 \<or> k < 2 then 0 else 1)
                     [0..<rows samples]\<rparr>, [])"

definition toy_connectedComponents :: "mat \<Rightarrow> int \<Rightarrow> int \<times> mat" where
  "toy_connectedComponents m connectivity =
     (if nonzero m
      then (2, m\<lparr>mtype := CV_32S, mdata := map (\<lambda>v. if v \<noteq> 0 then 1 else 0) (mdata m)\<rparr>)
      else (1, m\<lparr>mtype := CV_32S, mdata := map (\<lambda>v. 0) (mdata m)\<rparr>))"

definition toy_findContours :: "mat \<Rightarrow> mat list" where
  "toy_findContours m =
     (let ps = filter (\<lambda>(y, x). intAt m y x \<noteq> 0) (scan (rows m) (cols m))
      in if ps = [] then []
         else [\<lparr>rows = length ps, cols = 1, mtype = CV_32SC2,
                mdata = concat (map (\<lambda>(y, x). [int x, int y]) ps)\<rparr>])"

definition toy_moments :: "mat \<Rightarrow> rat \<times> rat \<times> rat" where
  "toy_moments c =
     (of_nat (rows c),
      of_int (sum_list (map (\<lambda>i. intAt c i 0) [0..<rows c])),
      of_int (sum_list (map (\<lambda>i. intAt c i 1) [0..<rows c])))"

definition toy_env :: cv_env where
  "toy_env =
     \<lparr>loaded = True,
      preprocess = (\<lambda>imageData maxSize. Inr imageData),
      cvtColor = toy_cvtColor,
      kmeans = toy_kmeans,
      getStructuringElement =
        (\<lambda>shape w h. \<lparr>rows = nat h, cols = nat w, mtype = CV_8UC1,
                       mdata = replicate (nat h * nat w) 1\<rparr>),
      erode = (\<lambda>m kernel. m),
      connectedComponents = toy_connectedComponents,
      watershed = (\<lambda>rgbm mk. Inr mk),
      findContours = toy_findContours,
      moments = toy_moments,
      contourArea = (\<lambda>c. of_nat (rows c))\<rparr>"

text \<open>A strip of three pixels, two dark and one bright, and a label map on it.\<close>

definition strip_image :: imageData where
  "strip_image =
     \<lparr>img_width = 3, img_height = 1,
      img_data = [10, 20, 30, 255,  11, 21, 32, 255,  200, 210, 220, 255]\<rparr>"

definition strip_map :: mat where
  "strip_map = \<lparr>rows = 1, cols = 3, mtype = CV_32S, mdata = [1, 1, 2]\<rparr>"

definition settings :: "int \<Rightarrow> int \<Rightarrow> options" where
  "settings k minSize =
     \<lparr>opt_colorCount = Some k, opt_complexity = Some ''extreme'',
      opt_minRegionSize = Some minSize, opt_maxSize = None\<rparr>"

text \<open>The strip after quantization into two colours.\<close>

definition strip_quantized :: mat where
  "strip_quantized =
     \<lparr>rows = 1, cols = 3, mtype = CV_8UC3, mdata = [11, 21, 31, 11, 21, 31, 200, 210, 220]\<rparr>"

definition strip_labels :: mat where
  "strip_labels = \<lparr>rows = 3, cols = 1, mtype = CV_32S, mdata = [0, 0, 1]\<rparr>"

definition empty_image :: imageData where
  "empty_image = \<lparr>img_width = 0, img_height = 0, img_data = []\<rparr>"

text \<open>
  The same stand-ins with an erosion that removes every blob, as OpenCV's does on an
  image whose blobs are all thinner than the structuring element.
\<close>

definition thin_env :: cv_env where
  "thin_env = toy_env\<lparr>erode := (\<lambda>m kernel. m\<lparr>mdata := map (\<lambda>v. 0) (mdata m)\<rparr>)\<rparr>"

text \<open>
  The same stand-ins with a colour conversion and a clustering that reject what OpenCV's
  reject: a matrix without pixels, a cluster count of zero or less, more clusters than
  samples.
\<close>

definition strict_env :: cv_env where
  "strict_env =
     toy_env\<lparr>cvtColor := (\<lambda>m code.
        if rows m * cols m = 0 then Inl (Thrown ''6593480'') else toy_cvtColor m code),
      kmeans := (\<lambda>samples k.
        if k \<le> 0 \<or> int (rows samples) < k then Inl (Thrown ''6593624'')
        else toy_kmeans samples k)\<rparr>"

section \<open>Properties\<close>

declare show_nat.simps [simp del] toString16.simps [simp del]

subsection \<open>The outline of a region as a path\<close>

lemma upto_as_upt: "[0..int n - 1] = map int [0..<n]"
proof (induction n)
  case 0
  then show ?case by simp
next
  case (Suc n)
  have "[0..int (Suc n) - 1] = [0..int n - 1] @ [int n]"
    using upto_rec2 [of 0 "int n"] by simp
  with Suc show ?case by simp
qed

lemma curveTo_append: "curveTo c d i = d @ curveTo c [] i"
  by (simp add: curveTo_def Let_def split: prod.splits)

lemma foldl_curveTo: "foldl (curveTo c) d js = d @ concat (map (curveTo c []) js)"
proof (induction js arbitrary: d)
  case Nil
  then show ?case by simp
next
  case (Cons j js)
  show ?case
    using Cons [of "curveTo c d j"] curveTo_append [of c d j] by simp
qed

lemma lineTo_append: "lineTo c d i = d @ lineTo c [] i"
  by (simp add: lineTo_def)

lemma foldl_lineTo: "foldl (lineTo c) d js = d @ concat (map (lineTo c []) js)"
proof (induction js arbitrary: d)
  case Nil
  then show ?case by simp
next
  case (Cons j js)
  show ?case
    using Cons [of "lineTo c d j"] lineTo_append [of c d j] by simp
qed

lemma pt_int:
  assumes "c \<noteq> []"
  shows "pt c (int k) = c ! (k mod length c)"
proof -
  have "(int k + int (length c)) mod int (length c) = int (k mod length c)"
    by (simp add: zmod_int)
  then show ?thesis by (simp add: pt_def)
qed

lemma pt_wrap:
  assumes "i < length c" and "length c \<ge> 3"
  shows "pt c (int i - 1) = c ! ((i + length c - 1) mod length c)"
    and "pt c (int i) = c ! i"
    and "pt c (int i + 1) = c ! ((i + 1) mod length c)"
    and "pt c (int i + 2) = c ! ((i + 2) mod length c)"
proof -
  let ?n = "length c"
  have ne: "c \<noteq> []" using assms by auto
  have "int i - 1 + int ?n = int (i + ?n - 1)" using assms by simp
  then have "(int i - 1 + int ?n) mod int ?n = int ((i + ?n - 1) mod ?n)"
    by (simp only: zmod_int)
  then show "pt c (int i - 1) = c ! ((i + ?n - 1) mod ?n)"
    by (simp add: pt_def)
  show "pt c (int i) = c ! i"
    using pt_int [OF ne, of i] assms by simp
  have "int i + 1 = int (i + 1)" by simp
  then show "pt c (int i + 1) = c ! ((i + 1) mod ?n)"
    using pt_int [OF ne, of "i + 1"] by (simp only:)
  have "int i + 2 = int (i + 2)" by simp
  then show "pt c (int i + 2) = c ! ((i + 2) mod ?n)"
    using pt_int [OF ne, of "i + 2"] by (simp only:)
qed

lemma curveTo_segment:
  assumes "i < length c" and "length c \<ge> 3"
  shows "curveTo c [] (int i) = spec_segment c i"
  using pt_wrap [OF assms]
  by (simp add: curveTo_def spec_segment_def catmullToBezier_def Let_def)

lemma spline_case:
  assumes "length c \<ge> 3"
  shows "contourToPathData c = spec_spline_path c"
proof -
  have "map (curveTo c []) (map int [0..<length c]) = map (spec_segment c) [0..<length c]"
    using assms by (simp add: curveTo_segment)
  moreover have ne: "c \<noteq> []" using assms by auto
  moreover have "pt c 0 = c ! 0"
    using pt_int [OF ne, of 0] by simp
  ultimately show ?thesis
    using assms
    by (simp add: contourToPathData_def spec_spline_path_def spec_moveTo_def foldl_curveTo
        upto_as_upt del: map_map)
qed

lemma straight_case:
  assumes "1 \<le> length c" and "length c < 3"
  shows "contourToPathData c = spec_straight_path c"
proof -
  have "map (lineTo c []) [1..<length c]
          = map (\<lambda>p. '' L '' @ show_int (pt_x p) @ '' '' @ show_int (pt_y p)) (tl c)"
    by (rule nth_equalityI) (simp_all add: lineTo_def nth_tl)
  moreover have "c \<noteq> []" using assms by auto
  ultimately show ?thesis
    using assms
    by (simp add: contourToPathData_def spec_straight_path_def spec_moveTo_def foldl_lineTo)
qed

text \<open>
  Claim C9, as amended. A polygon of three or more points becomes the closed Catmull-Rom
  spline of tension 1/2 with wrap-around neighbours, each segment (p0, p1, p2, p3) a cubic
  Bezier curve with control points p1 + (p2 - p0) * alpha / 3 and p2 - (p3 - p1) * alpha / 3.
  A polygon of one or two points becomes the straight-edged closed path. The empty polygon
  becomes the empty string.
\<close>

theorem contourToPathData_spline:
  "(3 \<le> length c \<longrightarrow> contourToPathData c = spec_spline_path c)
   \<and> (1 \<le> length c \<and> length c < 3 \<longrightarrow> contourToPathData c = spec_straight_path c)
   \<and> (length c = 0 \<longrightarrow> contourToPathData c = [])"
  using spline_case [of c] straight_case [of c]
  by (simp add: contourToPathData_def)

theorem contourToPathData_spline_witness:
  "3 \<le> length [\<lparr>pt_x = 0, pt_y = 0\<rparr>, \<lparr>pt_x = 10, pt_y = 0\<rparr>, \<lparr>pt_x = 10, pt_y = 7\<rparr>]
   \<and> spec_spline_path [\<lparr>pt_x = 0, pt_y = 0\<rparr>, \<lparr>pt_x = 10, pt_y = 0\<rparr>, \<lparr>pt_x = 10, pt_y = 7\<rparr>]
       = ''M 0 0 C 0.00 -1.17, 8.33 -1.17, 10 0 C 11.67 1.17, 11.67 7.00, 10 7 C 8.33 7.00, 0.00 1.17, 0 0 Z''
   \<and> contourToPathData [\<lparr>pt_x = 0, pt_y = 0\<rparr>, \<lparr>pt_x = 10, pt_y = 0\<rparr>, \<lparr>pt_x = 10, pt_y = 7\<rparr>]
       = ''M 0 0 C 0.00 -1.17, 8.33 -1.17, 10 0 C 11.67 1.17, 11.67 7.00, 10 7 C 8.33 7.00, 0.00 1.17, 0 0 Z''
   \<and> 1 \<le> length [\<lparr>pt_x = 3, pt_y = 4\<rparr>, \<lparr>pt_x = -5, pt_y = 14\<rparr>]
   \<and> length [\<lparr>pt_x = 3, pt_y = 4\<rparr>, \<lparr>pt_x = -5, pt_y = 14\<rparr>] < 3
   \<and> contourToPathData [\<lparr>pt_x = 3, pt_y = 4\<rparr>, \<lparr>pt_x = -5, pt_y = 14\<rparr>] = ''M 3 4 L -5 14 Z''"
proof -
  let ?tri = "[\<lparr>pt_x = 0, pt_y = 0\<rparr>, \<lparr>pt_x = 10, pt_y = 0\<rparr>, \<lparr>pt_x = 10, pt_y = 7\<rparr>]"
  let ?seg = "[\<lparr>pt_x = 3, pt_y = 4\<rparr>, \<lparr>pt_x = -5, pt_y = 14\<rparr>]"
  have s: "spec_spline_path ?tri
      = ''M 0 0 C 0.00 -1.17, 8.33 -1.17, 10 0 C 11.67 1.17, 11.67 7.00, 10 7 C 8.33 7.00, 0.00 1.17, 0 0 Z''"
    by code_simp
  have l: "spec_straight_path ?seg = ''M 3 4 L -5 14 Z''"
    by code_simp
  show ?thesis
    using contourToPathData_spline [of ?tri] contourToPathData_spline [of ?seg] s l
    by simp
qed

theorem contourToPathData_empty_not_closed:
  "contourToPathData [] \<noteq> spec_straight_path []"
  by (simp add: contourToPathData_def spec_straight_path_def spec_moveTo_def)

text \<open>
  Claim C10. The path of a contour with at least one point begins with the move to its
  first point and ends with the closing command; the path of the empty contour is the
  empty string.
\<close>

theorem contourToPathData_closed:
  "contourToPathData [] = []
   \<and> (c \<noteq> [] \<longrightarrow>
        prefix (''M '' @ show_int (pt_x (hd c)) @ '' '' @ show_int (pt_y (hd c)))
          (contourToPathData c)
        \<and> suffix '' Z'' (contourToPathData c))"
proof (cases "c = []")
  case True
  then show ?thesis by (simp add: contourToPathData_def)
next
  case False
  then have hd: "c ! 0 = hd c" by (simp add: hd_conv_nth)
  have "contourToPathData c = spec_spline_path c \<or> contourToPathData c = spec_straight_path c"
    using False spline_case [of c] straight_case [of c]
    by (cases "3 \<le> length c") (auto simp: Suc_le_eq)
  then show ?thesis
    using hd
    by (auto simp: spec_spline_path_def spec_straight_path_def spec_moveTo_def
        contourToPathData_def prefix_def suffix_def)
qed

theorem contourToPathData_closed_witness:
  "[\<lparr>pt_x = 3, pt_y = 4\<rparr>] \<noteq> []
   \<and> prefix ''M 3 4'' (contourToPathData [\<lparr>pt_x = 3, pt_y = 4\<rparr>])
   \<and> suffix '' Z'' (contourToPathData [\<lparr>pt_x = 3, pt_y = 4\<rparr>])"
proof -
  have m: "''M '' @ show_int 3 @ '' '' @ show_int 4 = ''M 3 4''"
    by code_simp
  show ?thesis
    using contourToPathData_closed [of "[\<lparr>pt_x = 3, pt_y = 4\<rparr>]"] m by simp
qed

subsection \<open>Loops over the pixels\<close>

lemma scan_Suc: "scan (Suc h) w = scan h w @ map (\<lambda>x. (h, x)) [0..<w]"
  by (simp add: scan_def)

lemma scan_index: "map (\<lambda>(y, x). y * w + x) (scan h w) = [0..<h * w]"
proof (induction h)
  case 0
  then show ?case by (simp add: scan_def)
next
  case (Suc h)
  have "map (\<lambda>x. h * w + x) [0..<w] = [h * w..<h * w + w]"
    using map_add_upt [of "h * w" w] by (simp add: add.commute)
  then have "map (\<lambda>(y, x). y * w + x) (scan (Suc h) w) = [0..<h * w] @ [h * w..<h * w + w]"
    using Suc by (simp add: scan_Suc comp_def)
  also have "\<dots> = [0..<h * w + w]"
    using upt_add_eq_append [of 0 "h * w" w] by simp
  finally show ?case by (simp add: add.commute)
qed

lemma length_scan: "length (scan h w) = h * w"
  using arg_cong [OF scan_index [of w h], of length] by simp

lemma scan_mem: "(y, x) \<in> set (scan h w) \<longleftrightarrow> y < h \<and> x < w"
  by (force simp: scan_def)

lemma scan_eq: "scan h w = map (\<lambda>i. (i div w, i mod w)) [0..<h * w]"
proof -
  have "map ((\<lambda>i. (i div w, i mod w)) \<circ> (\<lambda>(y, x). y * w + x)) (scan h w) = scan h w"
    by (rule map_idI) (auto simp: scan_mem)
  then have "map (\<lambda>i. (i div w, i mod w)) (map (\<lambda>(y, x). y * w + x) (scan h w)) = scan h w"
    by (simp only: map_map)
  then show ?thesis by (simp only: scan_index)
qed

lemma index_in_range:
  assumes "y < h" and "x < w"
  shows "y * w + x < h * (w::nat)"
proof -
  have "y * w + x < Suc y * w" using assms by simp
  also have "\<dots> \<le> h * w" using assms by (intro mult_le_mono1) simp
  finally show ?thesis .
qed

text \<open>A loop that writes some cells of a buffer, visiting the cells in order.\<close>

lemma foldl_update_upt:
  assumes "n \<le> length xs"
  shows "foldl (\<lambda>xs i. case g i of Some v \<Rightarrow> xs[i := v] | None \<Rightarrow> xs) xs [0..<n]
         = map (\<lambda>i. case g i of Some v \<Rightarrow> v | None \<Rightarrow> xs ! i) [0..<n] @ drop n xs"
  using assms
proof (induction n)
  case 0
  then show ?case by simp
next
  case (Suc n)
  let ?ys = "map (\<lambda>i. case g i of Some v \<Rightarrow> v | None \<Rightarrow> xs ! i) [0..<n]"
  have len: "length ?ys = n" by simp
  have dr: "drop n xs = xs ! n # drop (Suc n) xs"
    using Suc.prems by (simp add: Cons_nth_drop_Suc)
  have upd: "(?ys @ drop n xs)[n := v] = ?ys @ v # drop (Suc n) xs" for v
    using len dr by (simp add: list_update_append)
  show ?case
    using Suc upd dr by (cases "g n") simp_all
qed

text \<open>The same loop on a one-channel matrix, written over the pixels.\<close>

lemma foldl_put_index:
  assumes "\<And>m y x. f m (y, x) = (case val y x of Some v \<Rightarrow> put m y x v | None \<Rightarrow> m)"
    and "channels m = 1" and "cols m = w"
  shows "foldl f m (map (\<lambda>i. (i div w, i mod w)) js)
         = m\<lparr>mdata := foldl (\<lambda>xs i. case val (i div w) (i mod w) of
                                      Some v \<Rightarrow> xs[i := v] | None \<Rightarrow> xs) (mdata m) js\<rparr>"
  using assms(2,3)
proof (induction js arbitrary: m)
  case Nil
  then show ?case by simp
next
  case (Cons j js)
  let ?m' = "f m (j div w, j mod w)"
  have m': "?m' = (case val (j div w) (j mod w) of
                     Some v \<Rightarrow> m\<lparr>mdata := (mdata m)[j := v]\<rparr> | None \<Rightarrow> m)"
    using Cons.prems
    by (simp add: assms(1) put_def putc_def split: option.splits)
  have "channels ?m' = 1" and "cols ?m' = w"
    using Cons.prems by (simp_all add: m' split: option.splits)
  from Cons.IH [OF this] show ?case
    by (simp add: m' split: option.splits)
qed

lemma foldl_put_scan:
  assumes "\<And>m y x. f m (y, x) = (case val y x of Some v \<Rightarrow> put m y x v | None \<Rightarrow> m)"
    and "channels m = 1" and "cols m = w" and "length (mdata m) = h * w"
  shows "foldl f m (scan h w)
         = m\<lparr>mdata := map (\<lambda>i. case val (i div w) (i mod w) of
                                 Some v \<Rightarrow> v | None \<Rightarrow> mdata m ! i) [0..<h * w]\<rparr>"
  unfolding scan_eq foldl_put_index [of f val, OF assms(1-3)]
  using foldl_update_upt [of "h * w" "mdata m" "\<lambda>i. val (i div w) (i mod w)"] assms(4)
  by simp

lemma zeros_simps [simp]:
  "rows (zeros h w t) = h" "cols (zeros h w t) = w" "mtype (zeros h w t) = t"
  "length (mdata (zeros h w CV_8UC1)) = h * w" "length (mdata (zeros h w CV_32S)) = h * w"
  "i < h * w \<Longrightarrow> mdata (zeros h w CV_8UC1) ! i = 0"
  "i < h * w \<Longrightarrow> mdata (zeros h w CV_32S) ! i = 0"
  by (simp_all add: zeros_def)

lemma mask_loop:
  "foldl (\<lambda>msk (y, x). if Q y x then put msk y x 255 else msk) (zeros h w CV_8UC1) (scan h w)
   = \<lparr>rows = h, cols = w, mtype = CV_8UC1,
      mdata = map (\<lambda>(y, x). if Q y x then 255 else 0) (scan h w)\<rparr>"
proof -
  have "foldl (\<lambda>msk (y, x). if Q y x then put msk y x 255 else msk) (zeros h w CV_8UC1)
          (scan h w)
        = (zeros h w CV_8UC1)\<lparr>mdata :=
             map (\<lambda>i. case (if Q (i div w) (i mod w) then Some 255 else None) of
                         Some v \<Rightarrow> v | None \<Rightarrow> mdata (zeros h w CV_8UC1) ! i) [0..<h * w]\<rparr>"
    by (rule foldl_put_scan) simp_all
  also have "map (\<lambda>i. case (if Q (i div w) (i mod w) then Some 255 else None) of
                         Some v \<Rightarrow> v | None \<Rightarrow> mdata (zeros h w CV_8UC1) ! i) [0..<h * w]
             = map (\<lambda>(y, x). if Q y x then 255 else 0) (scan h w)"
    by (simp add: scan_eq)
  finally show ?thesis by (simp add: zeros_def)
qed

subsection \<open>Region extraction\<close>

lemma foldl_pair_count:
  "foldl (\<lambda>(msk, pixelCount) (y, x).
            if Q y x then (put msk y x 255, pixelCount + (1::int)) else (msk, pixelCount))
     (m, c) ps
   = (foldl (\<lambda>msk (y, x). if Q y x then put msk y x 255 else msk) m ps,
      c + int (length (filter (\<lambda>(y, x). Q y x) ps)))"
proof (induction ps arbitrary: m c)
  case Nil
  then show ?case by simp
next
  case (Cons p ps)
  obtain y x where p: "p = (y, x)" by (cases p)
  show ?case unfolding p by (simp add: Cons)
qed

lemma maskAndCount_eq: "maskAndCount wm label = (labelMask wm label, int (pixelCount wm label))"
  by (simp add: maskAndCount_def foldl_pair_count mask_loop labelMask_def pixelCount_def)

lemma labelMask_at:
  assumes "y < rows wm" and "x < cols wm"
  shows "intAt (labelMask wm l) y x = (if intAt wm y x = l then 255 else 0)"
  using assms index_in_range [OF assms]
  by (simp add: labelMask_def intAt_def elem_def scan_eq)

lemma set_add_set: "set (set_add s v) = insert v (set s)"
  by (auto simp: set_add_def)

lemma uniqueLabels_fold:
  "set (foldl (\<lambda>s (y, x). let label = intAt wm y x in if label > 0 then set_add s label else s)
          s0 ps)
   = set s0 \<union> {l. l > 0 \<and> (\<exists>(y, x) \<in> set ps. intAt wm y x = l)}"
proof (induction ps arbitrary: s0)
  case Nil
  then show ?case by simp
next
  case (Cons p ps)
  obtain y x where p: "p = (y, x)" by (cases p)
  show ?case
    unfolding p foldl_Cons Cons.IH
    by (auto simp: Let_def set_add_set)
qed

lemma uniqueLabels_set:
  "set (uniqueLabels wm) = {l. l > 0 \<and> (\<exists>y < rows wm. \<exists>x < cols wm. intAt wm y x = l)}"
  unfolding uniqueLabels_def uniqueLabels_fold
  by (fastforce simp: scan_mem)

lemma foldl_push:
  "foldl (\<lambda>regions label. case f label of None \<Rightarrow> regions | Some r \<Rightarrow> regions @ [r]) acc ls
   = acc @ List.map_filter f ls"
proof (induction ls arbitrary: acc)
  case Nil
  then show ?case by simp
next
  case (Cons l ls)
  show ?case
    by (cases "f l") (simp_all add: Cons)
qed

lemma set_map_filter_eq: "set (List.map_filter f xs) = {y. \<exists>x \<in> set xs. f x = Some y}"
  by (induction xs) (auto split: option.splits)

lemma extractRegions_set:
  "set (extractRegions env this wm q pal minRegionSize)
   = {r. \<exists>l \<in> set (uniqueLabels wm).
            regionOf env (colorMap this) wm pal minRegionSize l = Some r}"
  by (auto simp: extractRegions_def foldl_push colorMap_def Let_def set_map_filter_eq)

lemma regionOf_Some:
  "regionOf env m wm pal minRegionSize l = Some r \<longleftrightarrow>
     minRegionSize \<le> int (pixelCount wm l) \<and> findContours env (labelMask wm l) \<noteq> [] \<and>
     r = \<lparr>region_id = l,
          contour = contourToArray (findContours env (labelMask wm l) ! 0),
          centroid =
            (round_quotient (fst (snd (moments env (findContours env (labelMask wm l) ! 0))))
               (fst (moments env (findContours env (labelMask wm l) ! 0))),
             round_quotient (snd (snd (moments env (findContours env (labelMask wm l) ! 0))))
               (fst (moments env (findContours env (labelMask wm l) ! 0)))),
          area = contourArea env (findContours env (labelMask wm l) ! 0),
          colorId = colorIdOf m l (length pal),
          color = paletteAt pal (colorIdOf m l (length pal) - 1)\<rparr>"
  by (auto simp: regionOf_def maskAndCount_eq Let_def split: prod.splits)

lemma extractRegions_empty:
  assumes "\<forall>l \<in> set (uniqueLabels wm).
             int (pixelCount wm l) < minRegionSize \<or> findContours env (labelMask wm l) = []"
  shows "extractRegions env this wm q pal minRegionSize = []"
proof -
  have "set (extractRegions env this wm q pal minRegionSize) = {}"
    unfolding extractRegions_set using assms by (auto simp: regionOf_Some)
  then show ?thesis by simp
qed

text \<open>
  Claim C2. Let \<open>l\<close> be a positive label that \<^verbatim>\<open>extractRegions\<close> enumerates. If its pixel
  count is below \<open>minRegionSize\<close> (so also when it is \<open>minRegionSize - 1\<close>), no returned region
  has the label, and every returned region is traced from the mask of its own label only,
  in which the pixels of \<open>l\<close> are 0: they are given to no region. If its pixel count is at
  least \<open>minRegionSize\<close> (so also when it is equal) the label has a region in the list; the
  contour search returns a contour for the mask of such a label, as OpenCV's does for every
  mask with a pixel set.
\<close>

theorem extractRegions_minimum_size:
  assumes "l \<in> set (uniqueLabels wm)"
  shows "(int (pixelCount wm l) < minRegionSize \<longrightarrow>
            (\<forall>r \<in> set (extractRegions env this wm q pal minRegionSize).
               region_id r \<noteq> l
               \<and> contour r = contourToArray (findContours env (labelMask wm (region_id r)) ! 0)
               \<and> (\<forall>y < rows wm. \<forall>x < cols wm.
                    intAt wm y x = l \<longrightarrow> intAt (labelMask wm (region_id r)) y x = 0)))
         \<and> (minRegionSize \<le> int (pixelCount wm l) \<and> findContours env (labelMask wm l) \<noteq> [] \<longrightarrow>
            (\<exists>r \<in> set (extractRegions env this wm q pal minRegionSize). region_id r = l))"
proof (intro conjI impI ballI)
  fix r
  assume small: "int (pixelCount wm l) < minRegionSize"
    and r: "r \<in> set (extractRegions env this wm q pal minRegionSize)"
  from r obtain l' where l': "l' \<in> set (uniqueLabels wm)"
    and reg: "regionOf env (colorMap this) wm pal minRegionSize l' = Some r"
    by (auto simp: extractRegions_set)
  from reg have id: "region_id r = l'" and big: "minRegionSize \<le> int (pixelCount wm l')"
    and con: "contour r = contourToArray (findContours env (labelMask wm l') ! 0)"
    by (simp_all add: regionOf_Some)
  from small big show "region_id r \<noteq> l" using id by auto
  from con id show "contour r = contourToArray (findContours env (labelMask wm (region_id r)) ! 0)"
    by simp
  from small big id have "region_id r \<noteq> l" by auto
  then show "\<forall>y < rows wm. \<forall>x < cols wm.
               intAt wm y x = l \<longrightarrow> intAt (labelMask wm (region_id r)) y x = 0"
    by (simp add: labelMask_at)
next
  assume "minRegionSize \<le> int (pixelCount wm l) \<and> findContours env (labelMask wm l) \<noteq> []"
  then obtain r where "regionOf env (colorMap this) wm pal minRegionSize l = Some r"
      and "region_id r = l"
    by (simp add: regionOf_Some)
  then show "\<exists>r \<in> set (extractRegions env this wm q pal minRegionSize). region_id r = l"
    using assms by (auto simp: extractRegions_set)
qed

theorem extractRegions_minimum_size_witness:
  "1 \<in> set (uniqueLabels strip_map) \<and> 2 \<in> set (uniqueLabels strip_map)
   \<and> int (pixelCount strip_map 1) = 2 \<and> int (pixelCount strip_map 2) = 2 - 1
   \<and> findContours toy_env (labelMask strip_map 1) \<noteq> []
   \<and> (\<exists>r \<in> set (extractRegions toy_env constructor strip_map strip_map [] 2). region_id r = 1)
   \<and> 2 \<notin> region_id ` set (extractRegions toy_env constructor strip_map strip_map [] 2)"
proof -
  have l1: "1 \<in> set (uniqueLabels strip_map)" and l2: "2 \<in> set (uniqueLabels strip_map)"
    by code_simp+
  have c1: "int (pixelCount strip_map 1) = 2" and c2: "int (pixelCount strip_map 2) = 2 - 1"
    by code_simp+
  have f: "findContours toy_env (labelMask strip_map 1) \<noteq> []"
    by code_simp
  have "\<exists>r \<in> set (extractRegions toy_env constructor strip_map strip_map [] 2). region_id r = 1"
    using extractRegions_minimum_size [OF l1, of 2 toy_env constructor strip_map "[]"] c1 f
    by simp
  moreover
  have "2 \<notin> region_id ` set (extractRegions toy_env constructor strip_map strip_map [] 2)"
    using extractRegions_minimum_size [OF l2, of 2 toy_env constructor strip_map "[]"] c2
    by auto
  ultimately show ?thesis using l1 l2 c1 c2 f by simp
qed

subsection \<open>The pipeline and its caller\<close>

lemma process_stages:
  assumes "loaded env"
    and "preprocess env imageData (maxSize_of opts) = Inr pre"
    and "quantize env pre (colorCount_of opts) = Inr qr"
    and "createMarkers env this (quantized qr) (labels qr) (colorCount_of opts)
           (complexity_of opts) = (mk, this')"
  shows "process env this imageData opts =
     (case applyWatershed env (quantized qr) mk of
        Inl e \<Rightarrow>
          (this',
           [(0, ''Preprocessing image...''), (20, ''Quantizing colors...''),
            (40, ''Creating markers...''), (60, ''Applying watershed...'')],
           Inl (Error (''Watershed algorithm failed: '' @ toString e)))
      | Inr wm \<Rightarrow>
          (this',
           [(0, ''Preprocessing image...''), (20, ''Quantizing colors...''),
            (40, ''Creating markers...''), (60, ''Applying watershed...''),
            (80, ''Extracting regions...''), (100, ''Complete!'')],
           Inr \<lparr>regions = extractRegions env this' wm (quantized qr) (palette qr)
                              (minRegionSize_of opts),
                res_palette = palette qr, res_width = img_width pre,
                res_height = img_height pre\<rparr>))"
  using assms by (simp add: process_def Let_def split: sum.splits)

text \<open>
  Claim C8. When no label of the flooded map survives the filter, \<^verbatim>\<open>extractRegions\<close>
  returns the empty list, the pipeline returns its result with that empty list, and
  \<^verbatim>\<open>generate\<close> stores the result and shows the ``no regions'' warning, not the error toast.
\<close>

theorem no_regions_is_soft:
  assumes "loaded env"
    and "preprocess env imageData (maxSize_of opts) = Inr pre"
    and "quantize env pre (colorCount_of opts) = Inr qr"
    and "createMarkers env constructor (quantized qr) (labels qr) (colorCount_of opts)
           (complexity_of opts) = (mk, this')"
    and "applyWatershed env (quantized qr) mk = Inr wm"
    and "\<forall>l \<in> set (uniqueLabels wm).
           int (pixelCount wm l) < minRegionSize_of opts
           \<or> findContours env (labelMask wm l) = []"
  shows "extractRegions env this' wm (quantized qr) (palette qr) (minRegionSize_of opts) = []
    \<and> snd (snd (process env constructor imageData opts))
        = Inr \<lparr>regions = [], res_palette = palette qr, res_width = img_width pre,
               res_height = img_height pre\<rparr>
    \<and> generate env (Some imageData) opts
        = (Some \<lparr>regions = [], res_palette = palette qr, res_width = img_width pre,
                 res_height = img_height pre\<rparr>,
           Some (Toast ''No regions detected. Try different settings or a different image.''
                   ''warning''))"
proof -
  have e: "extractRegions env this' wm (quantized qr) (palette qr) (minRegionSize_of opts) = []"
    using assms(6) by (rule extractRegions_empty)
  have p: "snd (snd (process env constructor imageData opts))
        = Inr \<lparr>regions = [], res_palette = palette qr, res_width = img_width pre,
               res_height = img_height pre\<rparr>"
    using process_stages [OF assms(1-4)] assms(5) e by simp
  show ?thesis
    using e p by (simp add: generate_def)
qed

theorem no_regions_is_soft_witness:
  "loaded toy_env
   \<and> uniqueLabels strip_map = [1, 2]
   \<and> int (pixelCount strip_map 1) < 100 \<and> int (pixelCount strip_map 2) < 100
   \<and> generate toy_env (Some strip_image) (settings 2 100)
       = (Some \<lparr>regions = [], res_palette = palette (projr (quantize toy_env strip_image 2)),
                res_width = 3, res_height = 1\<rparr>,
          Some (Toast ''No regions detected. Try different settings or a different image.''
                  ''warning''))"
proof -
  let ?opts = "settings 2 100"
  let ?qr = "projr (quantize toy_env strip_image 2)"
  have a1: "loaded toy_env" by code_simp
  have a2: "preprocess toy_env strip_image (maxSize_of ?opts) = Inr strip_image" by code_simp
  have a3: "quantize toy_env strip_image (colorCount_of ?opts) = Inr ?qr" by code_simp
  have q: "quantized ?qr = strip_quantized" and l: "labels ?qr = strip_labels" by code_simp+
  obtain mk this' where a4: "createMarkers toy_env constructor (quantized ?qr) (labels ?qr)
      (colorCount_of ?opts) (complexity_of ?opts) = (mk, this')"
    by (cases "createMarkers toy_env constructor (quantized ?qr) (labels ?qr)
      (colorCount_of ?opts) (complexity_of ?opts)")
  have "fst (createMarkers toy_env constructor (quantized ?qr) (labels ?qr)
      (colorCount_of ?opts) (complexity_of ?opts)) = strip_map"
    by code_simp
  then have mk: "mk = strip_map" using a4 by simp
  have a5: "applyWatershed toy_env (quantized ?qr) strip_map = Inr strip_map" by code_simp
  have u: "uniqueLabels strip_map = [1, 2]" by code_simp
  have c1: "int (pixelCount strip_map 1) < 100" and c2: "int (pixelCount strip_map 2) < 100"
    by code_simp+
  have m: "minRegionSize_of ?opts = 100" by code_simp
  have a6: "\<forall>l \<in> set (uniqueLabels strip_map).
           int (pixelCount strip_map l) < minRegionSize_of ?opts
           \<or> findContours toy_env (labelMask strip_map l) = []"
    using u c1 c2 m by simp
  have w: "img_width strip_image = 3" and h: "img_height strip_image = 1" by code_simp+
  show ?thesis
    using no_regions_is_soft [OF a1 a2 a3 a4 [unfolded mk] a5 a6] a1 u c1 c2 w h by simp
qed

subsection \<open>Where the colour map lives\<close>

text \<open>
  Claim C4, as amended. \<^verbatim>\<open>createMarkers\<close> hands the colour map over through the instance:
  it overwrites the field \<^verbatim>\<open>_markerToColor\<close> of the processor with the map it built and
  changes no other field, and the marker image it returns does not depend on the
  processor. The result of \<^verbatim>\<open>extractRegions\<close> depends on its explicit arguments and on
  that one field.
\<close>

theorem createMarkers_stores_map:
  "markerToColor (snd (createMarkers env this q lbls numColors complexity))
     = Some (m2c (markerLoop env q lbls numColors complexity))
   \<and> currentStep (snd (createMarkers env this q lbls numColors complexity)) = currentStep this
   \<and> totalSteps (snd (createMarkers env this q lbls numColors complexity)) = totalSteps this
   \<and> fst (createMarkers env this q lbls numColors complexity)
       = fst (createMarkers env this2 q lbls numColors complexity)
   \<and> (markerToColor this = markerToColor this2 \<longrightarrow>
        extractRegions env this wm q pal minRegionSize
          = extractRegions env this2 wm q pal minRegionSize)"
  by (simp add: createMarkers_def extractRegions_def Let_def)

theorem createMarkers_stores_map_witness:
  "markerToColor (constructor\<lparr>currentStep := 3\<rparr>) = markerToColor constructor
   \<and> extractRegions toy_env (constructor\<lparr>currentStep := 3\<rparr>) strip_map strip_quantized [] 1
       = extractRegions toy_env constructor strip_map strip_quantized [] 1"
proof -
  have h: "markerToColor (constructor\<lparr>currentStep := 3\<rparr>) = markerToColor constructor"
    by simp
  show ?thesis
    using createMarkers_stores_map
      [of toy_env "constructor\<lparr>currentStep := 3\<rparr>" strip_quantized strip_labels 2
          "''extreme''" constructor strip_map "[]" 1] h
    by simp
qed

theorem createMarkers_changes_processor:
  "markerToColor (snd (createMarkers toy_env constructor strip_quantized strip_labels 2
                         ''extreme'')) \<noteq> markerToColor constructor
   \<and> map colorId
        (extractRegions toy_env
           (snd (createMarkers toy_env constructor strip_quantized strip_labels 2 ''extreme''))
           strip_map strip_quantized (palette (projr (quantize toy_env strip_image 2))) 1)
       = [1, 2]
   \<and> map colorId
        (extractRegions toy_env constructor
           strip_map strip_quantized (palette (projr (quantize toy_env strip_image 2))) 1)
       = [1, 1]"
proof -
  have "markerToColor (snd (createMarkers toy_env constructor strip_quantized strip_labels 2
                         ''extreme'')) \<noteq> markerToColor constructor"
    by (simp add: createMarkers_def constructor_def Let_def)
  moreover have "map colorId
        (extractRegions toy_env
           (snd (createMarkers toy_env constructor strip_quantized strip_labels 2 ''extreme''))
           strip_map strip_quantized (palette (projr (quantize toy_env strip_image 2))) 1)
       = [1, 2]"
    by code_simp
  moreover have "map colorId
        (extractRegions toy_env constructor
           strip_map strip_quantized (palette (projr (quantize toy_env strip_image 2))) 1)
       = [1, 1]"
    by code_simp
  ultimately show ?thesis by simp
qed

subsection \<open>A marker image without seeds\<close>

text \<open>
  Claim C6, as amended. When marker construction produces no seed, \<^verbatim>\<open>createMarkers\<close>
  returns the all-zero marker image and the pipeline goes on: it reports the watershed
  stage and calls \<^verbatim>\<open>applyWatershed\<close> on that image. The run fails only if that call throws
  (then with ``Watershed algorithm failed''); otherwise it returns the regions extracted
  from the flooded map.
\<close>

theorem no_seeds_go_to_watershed:
  assumes "loaded env"
    and "preprocess env imageData (maxSize_of opts) = Inr pre"
    and "quantize env pre (colorCount_of opts) = Inr qr"
    and "createMarkers env this (quantized qr) (labels qr) (colorCount_of opts)
           (complexity_of opts) = (mk, this')"
    and "\<not> nonzero mk"
  shows "(60, ''Applying watershed...'') \<in> set (fst (snd (process env this imageData opts)))
    \<and> snd (snd (process env this imageData opts))
        = (case applyWatershed env (quantized qr) mk of
             Inl e \<Rightarrow> Inl (Error (''Watershed algorithm failed: '' @ toString e))
           | Inr wm \<Rightarrow>
               Inr \<lparr>regions = extractRegions env this' wm (quantized qr) (palette qr)
                                 (minRegionSize_of opts),
                    res_palette = palette qr, res_width = img_width pre,
                    res_height = img_height pre\<rparr>)"
  using process_stages [OF assms(1-4)] by (simp split: sum.splits)

theorem no_seeds_go_to_watershed_witness:
  "loaded thin_env
   \<and> \<not> nonzero (fst (createMarkers thin_env constructor strip_quantized strip_labels 2
                        ''extreme''))
   \<and> (60, ''Applying watershed...'')
        \<in> set (fst (snd (process thin_env constructor strip_image (settings 2 2))))
   \<and> snd (snd (process thin_env constructor strip_image (settings 2 2)))
       = Inr \<lparr>regions = [], res_palette = palette (projr (quantize thin_env strip_image 2)),
              res_width = 3, res_height = 1\<rparr>"
proof -
  let ?opts = "settings 2 2"
  let ?qr = "projr (quantize thin_env strip_image 2)"
  let ?mk = "fst (createMarkers thin_env constructor strip_quantized strip_labels 2 ''extreme'')"
  let ?p = "snd (createMarkers thin_env constructor strip_quantized strip_labels 2 ''extreme'')"
  have a1: "loaded thin_env" by code_simp
  have a2: "preprocess thin_env strip_image (maxSize_of ?opts) = Inr strip_image" by code_simp
  have a3: "quantize thin_env strip_image (colorCount_of ?opts) = Inr ?qr" by code_simp
  have q: "quantized ?qr = strip_quantized" and l: "labels ?qr = strip_labels"
    and k: "colorCount_of ?opts = 2" and c: "complexity_of ?opts = ''extreme''"
    by code_simp+
  have a4: "createMarkers thin_env constructor (quantized ?qr) (labels ?qr)
      (colorCount_of ?opts) (complexity_of ?opts) = (?mk, ?p)"
    by (simp add: q l k c)
  have a5: "\<not> nonzero ?mk" by code_simp
  have w: "applyWatershed thin_env strip_quantized ?mk = Inr ?mk" by code_simp
  have u: "uniqueLabels ?mk = []" by code_simp
  have e: "extractRegions thin_env ?p ?mk strip_quantized (palette ?qr) (minRegionSize_of ?opts)
             = []"
    using u by (simp add: extractRegions_def)
  have d: "img_width strip_image = 3" "img_height strip_image = 1" by code_simp+
  show ?thesis
    using no_seeds_go_to_watershed [OF a1 a2 a3 a4 a5] a1 a5 w e d q by simp
qed

theorem no_seeds_no_error:
  "\<not> nonzero (fst (createMarkers thin_env constructor strip_quantized strip_labels 2
                      ''extreme''))
   \<and> quantize thin_env strip_image 2
       = Inr \<lparr>quantized = strip_quantized,
              palette = palette (projr (quantize thin_env strip_image 2)),
              labels = strip_labels\<rparr>
   \<and> fst (snd (process thin_env constructor strip_image (settings 2 2)))
       = [(0, ''Preprocessing image...''), (20, ''Quantizing colors...''),
          (40, ''Creating markers...''), (60, ''Applying watershed...''),
          (80, ''Extracting regions...''), (100, ''Complete!'')]
   \<and> snd (snd (process thin_env constructor strip_image (settings 2 2)))
       = Inr \<lparr>regions = [], res_palette = palette (projr (quantize thin_env strip_image 2)),
              res_width = 3, res_height = 1\<rparr>"
proof -
  have "\<not> nonzero (fst (createMarkers thin_env constructor strip_quantized strip_labels 2
                      ''extreme''))"
    by code_simp
  moreover have "quantize thin_env strip_image 2
       = Inr \<lparr>quantized = strip_quantized,
              palette = palette (projr (quantize thin_env strip_image 2)),
              labels = strip_labels\<rparr>"
    by code_simp
  moreover have "fst (snd (process thin_env constructor strip_image (settings 2 2)))
       = [(0, ''Preprocessing image...''), (20, ''Quantizing colors...''),
           (40, ''Creating markers...''), (60, ''Applying watershed...''),
           (80, ''Extracting regions...''), (100, ''Complete!'')]"
    by code_simp
  moreover have "snd (snd (process thin_env constructor strip_image (settings 2 2)))
       = Inr \<lparr>regions = [], res_palette = palette (projr (quantize thin_env strip_image 2)),
               res_width = 3, res_height = 1\<rparr>"
    by code_simp
  ultimately show ?thesis by simp
qed

subsection \<open>The quantizer\<close>

lemma length_add_pixel [simp]:
  "length (add_pixel rgbm lbls numColors colorSums i) = length colorSums"
  by (simp add: add_pixel_def Let_def)

lemma length_foldl_add_pixel [simp]:
  "length (foldl (add_pixel rgbm lbls numColors) colorSums ps) = length colorSums"
  by (induction ps arbitrary: colorSums) simp_all

text \<open>What the summing loop has added to the accumulator of cluster \<open>j\<close>.\<close>

lemma foldl_add_pixel:
  assumes "0 \<le> j" and "j < numColors" and "nat j < length colorSums"
  shows "foldl (add_pixel rgbm lbls numColors) colorSums ps ! nat j
         = (colorSums ! nat j)
             \<lparr>sum_r := sum_r (colorSums ! nat j)
                 + sum_list (map (channel rgbm 0) (filter (\<lambda>p. intAt lbls p 0 = j) ps)),
              sum_g := sum_g (colorSums ! nat j)
                 + sum_list (map (channel rgbm 1) (filter (\<lambda>p. intAt lbls p 0 = j) ps)),
              sum_b := sum_b (colorSums ! nat j)
                 + sum_list (map (channel rgbm 2) (filter (\<lambda>p. intAt lbls p 0 = j) ps)),
              sum_count := sum_count (colorSums ! nat j)
                 + int (length (filter (\<lambda>p. intAt lbls p 0 = j) ps))\<rparr>"
  using assms(3)
proof (induction ps arbitrary: colorSums)
  case Nil
  then show ?case by simp
next
  case (Cons p ps)
  let ?cs = "add_pixel rgbm lbls numColors colorSums p"
  have len: "nat j < length ?cs" using Cons.prems by simp
  have step: "?cs ! nat j =
      (if intAt lbls p 0 = j
       then (colorSums ! nat j)
              \<lparr>sum_r := sum_r (colorSums ! nat j) + channel rgbm 0 p,
               sum_g := sum_g (colorSums ! nat j) + channel rgbm 1 p,
               sum_b := sum_b (colorSums ! nat j) + channel rgbm 2 p,
               sum_count := sum_count (colorSums ! nat j) + 1\<rparr>
       else colorSums ! nat j)"
    using Cons.prems assms(1,2)
    by (auto simp: add_pixel_def Let_def channel_def nth_list_update nat_eq_iff)
  show ?case
    using Cons.IH [OF len] step by (simp add: algebra_simps)
qed

lemma sumColors_nth:
  assumes "0 \<le> j" and "j < numColors"
  shows "sumColors rgbm lbls numColors ! nat j
         = \<lparr>sum_r = sum_list (map (channel rgbm 0) (cluster rgbm lbls j)),
            sum_g = sum_list (map (channel rgbm 1) (cluster rgbm lbls j)),
            sum_b = sum_list (map (channel rgbm 2) (cluster rgbm lbls j)),
            sum_count = int (length (cluster rgbm lbls j))\<rparr>"
proof -
  have "nat j < length (replicate (nat numColors)
                          \<lparr>sum_r = 0, sum_g = 0, sum_b = 0, sum_count = 0\<rparr>)"
    using assms by simp
  from foldl_add_pixel [OF assms this, of rgbm lbls] assms
  show ?thesis by (simp add: sumColors_def cluster_def)
qed

lemma paletteEntry_average:
  assumes "0 \<le> j" and "j < numColors" and "cluster rgbm lbls j \<noteq> []"
  shows "entry_rgb (buildPalette rgbm lbls numColors ! nat j)
         = \<lparr>rgb_r = spec_average rgbm (cluster rgbm lbls j) 0,
            rgb_g = spec_average rgbm (cluster rgbm lbls j) 1,
            rgb_b = spec_average rgbm (cluster rgbm lbls j) 2\<rparr>"
    and "entry_id (buildPalette rgbm lbls numColors ! nat j) = j + 1"
  using assms
  by (simp_all add: buildPalette_def paletteEntry_def Let_def sumColors_nth avgRgb_def
      spec_average_def)

lemma quantize_Inr:
  assumes "quantize env imageData numColors = Inr res"
  shows "loaded env \<and> 0 \<le> numColors \<and>
     (\<exists>rgbm lab centers.
        cvtColor env (matFromImageData imageData) COLOR_RGBA2RGB = Inr rgbm
        \<and> cvtColor env rgbm COLOR_RGB2Lab = Inr lab
        \<and> kmeans env (labSamples lab) numColors = Inr (labels res, centers)
        \<and> palette res = buildPalette rgbm (labels res) numColors
        \<and> paint (palette res) (labels res) [0..<rows rgbm * cols rgbm]
              (zeros (rows rgbm) (cols rgbm) CV_8UC3) = Inr (quantized res))"
  using assms
  by (auto simp: quantize_def matFromImageData_def Let_def
      split: if_splits sum.splits prod.splits)

text \<open>
  The quantizer of js/colorQuantizer.js. In the palette that its \<^verbatim>\<open>quantize\<close> returns, the
  entry of every cluster with at least one pixel carries, channel by channel, the rounded
  average of the original RGB values of the cluster's pixels. The centres that the
  clustering returns play no part: with any other centres the result is the same.
\<close>

theorem palette_is_average_rgb:
  assumes "quantize env imageData numColors = Inr res"
    and "cvtColor env (matFromImageData imageData) COLOR_RGBA2RGB = Inr rgbm"
    and "0 \<le> i" and "i < numColors"
    and "cluster rgbm (labels res) i \<noteq> []"
  shows "entry_rgb (palette res ! nat i)
           = \<lparr>rgb_r = spec_average rgbm (cluster rgbm (labels res) i) 0,
              rgb_g = spec_average rgbm (cluster rgbm (labels res) i) 1,
              rgb_b = spec_average rgbm (cluster rgbm (labels res) i) 2\<rparr>
    \<and> entry_id (palette res ! nat i) = i + 1
    \<and> quantize (env\<lparr>kmeans := \<lambda>samples k.
                   map_sum id (\<lambda>(lbls, centers). (lbls, others)) (kmeans env samples k)\<rparr>)
          imageData numColors = Inr res"
proof -
  from quantize_Inr [OF assms(1)] assms(2)
  obtain lab centers where ld: "loaded env" and k0: "0 \<le> numColors"
    and lab: "cvtColor env rgbm COLOR_RGB2Lab = Inr lab"
    and km: "kmeans env (labSamples lab) numColors = Inr (labels res, centers)"
    and pal: "palette res = buildPalette rgbm (labels res) numColors"
    and pt: "paint (palette res) (labels res) [0..<rows rgbm * cols rgbm]
              (zeros (rows rgbm) (cols rgbm) CV_8UC3) = Inr (quantized res)"
    by auto
  have "quantize (env\<lparr>kmeans := \<lambda>samples k.
                   map_sum id (\<lambda>(lbls, centers). (lbls, others)) (kmeans env samples k)\<rparr>)
          imageData numColors = Inr res"
    using ld k0 assms(2) lab km pal pt
    by (simp add: quantize_def matFromImageData_def Let_def)
  then show ?thesis
    using paletteEntry_average [OF assms(3,4,5)] pal by simp
qed

theorem palette_is_average_rgb_witness:
  "quantize toy_env strip_image 2 = Inr (projr (quantize toy_env strip_image 2))
   \<and> cvtColor toy_env (matFromImageData strip_image) COLOR_RGBA2RGB
       = Inr \<lparr>rows = 1, cols = 3, mtype = CV_8UC3,
              mdata = [10, 20, 30, 11, 21, 32, 200, 210, 220]\<rparr>
   \<and> cluster \<lparr>rows = 1, cols = 3, mtype = CV_8UC3,
               mdata = [10, 20, 30, 11, 21, 32, 200, 210, 220]\<rparr>
        (labels (projr (quantize toy_env strip_image 2))) 0 = [0, 1]
   \<and> entry_rgb (palette (projr (quantize toy_env strip_image 2)) ! nat 0)
       = \<lparr>rgb_r = 11, rgb_g = 21, rgb_b = 31\<rparr>"
proof -
  let ?res = "projr (quantize toy_env strip_image 2)"
  let ?rgb = "\<lparr>rows = 1, cols = 3, mtype = CV_8UC3,
               mdata = [10, 20, 30, 11, 21, 32, 200, 210, 220]\<rparr>"
  have a1: "quantize toy_env strip_image 2 = Inr ?res" by code_simp
  have a2: "cvtColor toy_env (matFromImageData strip_image) COLOR_RGBA2RGB = Inr ?rgb"
    by code_simp
  have c: "cluster ?rgb (labels ?res) 0 = [0, 1]" by code_simp
  then have a5: "cluster ?rgb (labels ?res) 0 \<noteq> []" by simp
  have avg: "spec_average ?rgb [0, 1] 0 = 11" "spec_average ?rgb [0, 1] 1 = 21"
    "spec_average ?rgb [0, 1] 2 = 31"
    by code_simp+
  show ?thesis
    using palette_is_average_rgb [OF a1 a2 _ _ a5] a1 a2 c avg by simp
qed


subsection \<open>The second quantizer\<close>

lemma xyz_to_rgb_origin: "xyz_to_rgb (16 / 116) = 64 / 24389"
  by (simp add: xyz_to_rgb_def power3_eq_cube)

lemma rgb_to_srgb_linear:
  assumes "v \<le> 0.0031308" and "0 \<le> v"
  shows "max 0 (min 1 (rgb_to_srgb v)) = 12.92 * v"
  using assms by (simp add: rgb_to_srgb_def)

lemma round_real_9:
  assumes "8 + 1 / 2 \<le> v" and "v < 9 + 1 / 2"
  shows "round_real v = 9"
  using assms unfolding round_real_def by linarith

lemma labToRgb_origin: "labToRgb 0 0 0 = \<lparr>rgb_r = 9, rgb_g = 9, rgb_b = 9\<rparr>"
proof -
  let ?x = "95.047 * (64 / 24389) / (100::real)"
  let ?y = "100.000 * (64 / 24389) / (100::real)"
  let ?z = "108.883 * (64 / 24389) / (100::real)"
  have r: "round_real (max 0 (min 1 (rgb_to_srgb
             (?x * 3.2406 + ?y * - 1.5372 + ?z * - 0.4986))) * 255) = 9"
    by (subst rgb_to_srgb_linear; simp add: round_real_9)
  have g: "round_real (max 0 (min 1 (rgb_to_srgb
             (?x * - 0.9689 + ?y * 1.8758 + ?z * 0.0415))) * 255) = 9"
    by (subst rgb_to_srgb_linear; simp add: round_real_9)
  have b: "round_real (max 0 (min 1 (rgb_to_srgb
             (?x * 0.0557 + ?y * - 0.2040 + ?z * 1.0570))) * 255) = 9"
    by (subst rgb_to_srgb_linear; simp add: round_real_9)
  show ?thesis
    unfolding labToRgb_def Let_def
    by (simp only: xyz_to_rgb_origin r g b add_0 div_0 diff_zero add_0_right)
qed

text \<open>Every read of the empty centres matrix is outside its buffer.\<close>

lemma floatAt_empty: "floatAt (zeros 0 0 CV_8UC1) i j = 0"
  by (simp add: floatAt_def intAt_def elem_def zeros_def)

lemma centerEntry_empty:
  "entry_rgb (centerEntry (zeros 0 0 CV_8UC1) i) = \<lparr>rgb_r = 9, rgb_g = 9, rgb_b = 9\<rparr>"
  by (simp add: centerEntry_def Let_def floatAt_empty labToRgb_origin)

lemma quantize_svgGenerator_palette:
  assumes "quantize_svgGenerator env imageData numColors = Inr res"
  shows "map entry_rgb (palette res)
         = replicate (nat numColors) \<lparr>rgb_r = 9, rgb_g = 9, rgb_b = 9\<rparr>"
proof -
  have "palette res = map (centerEntry (zeros 0 0 CV_8UC1)) [0..<nat numColors]"
    using assms
    by (auto simp: quantize_svgGenerator_def Let_def split: if_splits sum.splits prod.splits)
  then show ?thesis
    by (simp add: comp_def centerEntry_empty map_replicate_const)
qed

text \<open>
  Claim C5, on the strip of two dark pixels and one bright pixel with two colours. The
  clusters are the two dark pixels and the bright pixel, and the rounded averages of their
  original RGB values are (11, 21, 31) and (200, 210, 220). The quantizer of
  js/colorQuantizer.js returns these averages. The quantizer of js/svgGenerator.js returns
  the same labels, but for both clusters the colour (9, 9, 9) that \<^verbatim>\<open>labToRgb\<close> makes of
  its unfilled centres matrix, and paints every pixel with it.
\<close>

theorem second_quantizer_ignores_pixels:
  "map entry_rgb (palette (projr (quantize toy_env strip_image 2)))
     = [\<lparr>rgb_r = 11, rgb_g = 21, rgb_b = 31\<rparr>, \<lparr>rgb_r = 200, rgb_g = 210, rgb_b = 220\<rparr>]
   \<and> quantize_svgGenerator toy_env strip_image 2
     = Inr \<lparr>quantized = \<lparr>rows = 1, cols = 3, mtype = CV_8UC3,
                          mdata = [9, 9, 9, 9, 9, 9, 9, 9, 9]\<rparr>,
            palette = [\<lparr>entry_id = 1, entry_rgb = \<lparr>rgb_r = 9, rgb_g = 9, rgb_b = 9\<rparr>,
                        hex = ''#090909'', name = ''Black''\<rparr>,
                       \<lparr>entry_id = 2, entry_rgb = \<lparr>rgb_r = 9, rgb_g = 9, rgb_b = 9\<rparr>,
                        hex = ''#090909'', name = ''Black''\<rparr>],
            labels = strip_labels\<rparr>"
  by code_simp

subsection \<open>Bad parameters\<close>

text \<open>
  Claim C7, as amended. With a colour conversion that rejects a matrix without pixels and
  a clustering that rejects a cluster count of zero or less (as OpenCV's do), every call
  of \<^verbatim>\<open>quantize\<close> with a count of zero or less, or with an image without pixels, fails
  rather than returning a result. The error is not one of a parameter check, which
  \<^verbatim>\<open>quantize\<close> does not have: it is a generic error that wraps what the rejecting call
  threw, with the message of the stage (or the one of the missing library).
\<close>

theorem quantize_bad_parameters:
  assumes "rejects_empty env" and "rejects_bad_count env"
    and "numColors \<le> 0 \<or> img_width imageData * img_height imageData = 0"
  shows "\<exists>msg. quantize env imageData numColors = Inl (Error msg)
           \<and> (msg = ''OpenCV.js is not loaded''
               \<or> prefix ''RGB conversion failed: '' msg
               \<or> prefix ''Lab conversion failed: '' msg
               \<or> prefix ''K-Means clustering failed: '' msg)"
proof (cases "loaded env")
  case False
  then show ?thesis by (simp add: quantize_def)
next
  case True
  let ?src = "matFromImageData imageData"
  show ?thesis
  proof (cases "cvtColor env ?src COLOR_RGBA2RGB")
    case (Inl e)
    then show ?thesis using True by (simp add: quantize_def matFromImageData_def)
  next
    case rgb: (Inr rgbm)
    have "\<not> isl (cvtColor env ?src COLOR_RGBA2RGB)" using rgb by simp
    then have "rows ?src * cols ?src \<noteq> 0"
      using assms(1) unfolding rejects_empty_def by blast
    then have k: "numColors \<le> 0"
      using assms(3) by (simp add: matFromImageData_def mult.commute)
    show ?thesis
    proof (cases "cvtColor env rgbm COLOR_RGB2Lab")
      case (Inl e)
      then show ?thesis using True rgb by (simp add: quantize_def matFromImageData_def)
    next
      case lab: (Inr lab)
      have "isl (kmeans env (labSamples lab) numColors)"
        using assms(2) k unfolding rejects_bad_count_def by blast
      then obtain e where "kmeans env (labSamples lab) numColors = Inl e"
        by (cases "kmeans env (labSamples lab) numColors") auto
      then show ?thesis
        using True rgb lab by (simp add: quantize_def matFromImageData_def)
    qed
  qed
qed

lemma strict_rejects_empty: "rejects_empty strict_env"
  by (simp add: rejects_empty_def strict_env_def toy_env_def)

lemma strict_rejects_bad_count: "rejects_bad_count strict_env"
  by (simp add: rejects_bad_count_def strict_env_def toy_env_def)

theorem quantize_bad_parameters_witness:
  "rejects_empty strict_env \<and> rejects_bad_count strict_env
   \<and> quantize strict_env strip_image 0 = Inl (Error ''K-Means clustering failed: 6593624'')
   \<and> img_width empty_image * img_height empty_image = 0
   \<and> quantize strict_env empty_image 6 = Inl (Error ''RGB conversion failed: 6593480'')"
proof -
  have a: "(0::int) \<le> 0 \<or> img_width strip_image * img_height strip_image = 0" by simp
  have e: "img_width empty_image * img_height empty_image = 0" by code_simp
  then have b: "(6::int) \<le> 0 \<or> img_width empty_image * img_height empty_image = 0" by simp
  have v1: "quantize strict_env strip_image 0 = Inl (Error ''K-Means clustering failed: 6593624'')"
    by code_simp
  have v2: "quantize strict_env empty_image 6 = Inl (Error ''RGB conversion failed: 6593480'')"
    by code_simp
  show ?thesis
    using quantize_bad_parameters [OF strict_rejects_empty strict_rejects_bad_count a]
      quantize_bad_parameters [OF strict_rejects_empty strict_rejects_bad_count b]
      strict_rejects_empty strict_rejects_bad_count e v1 v2
    by simp
qed

theorem quantize_throws_stage_error:
  "quantize strict_env strip_image 0 = Inl (Error ''K-Means clustering failed: 6593624'')
   \<and> quantize strict_env strip_image 6 = Inl (Error ''K-Means clustering failed: 6593624'')"
  by code_simp

subsection \<open>Marker construction\<close>

lemma colorMask_eq: "colorMask lbls h w c = spec_mask lbls h w c"
  unfolding colorMask_def spec_mask_def by (rule mask_loop)

lemma foldl_record_ids:
  "foldl (\<lambda>m comp. m(a + comp - 1 \<mapsto> v)) m [1..n - 1]
   = (\<lambda>i. if a \<le> i \<and> i \<le> a + n - 2 then Some v else m i)"
proof (cases "1 \<le> n")
  case False
  then show ?thesis by (auto simp: fun_eq_iff)
next
  case True
  then show ?thesis
  proof (induction n rule: int_ge_induct)
    case base
    then show ?case by (auto simp: fun_eq_iff)
  next
    case (step n)
    have "[1..n + 1 - 1] = [1..n - 1] @ [n]"
      using step.hyps upto_rec2 [of 1 n] by simp
    then show ?case
      using step.IH by (auto simp: fun_eq_iff)
  qed
qed

text \<open>One round of the loop, in terms of the labelling of its colour.\<close>

lemma colorStep_eq:
  assumes "markers st = \<lparr>rows = h, cols = w, mtype = CV_32S, mdata = ds\<rparr>"
    and "length ds = h * w"
    and "cc = colorComponents env lbls h w erodeSize"
  shows "colorStep env lbls h w erodeSize st c =
     \<lparr>markers = \<lparr>rows = h, cols = w, mtype = CV_32S,
         mdata = map (\<lambda>i. if component_at cc c (i div w) (i mod w) > 0
                           then nextLabel st + component_at cc c (i div w) (i mod w) - 1
                           else ds ! i) [0..<h * w]\<rparr>,
      m2c = (\<lambda>i. if nextLabel st \<le> i \<and> i \<le> nextLabel st + component_count cc c - 2
                  then Some (c + 1) else m2c st i),
      nextLabel = nextLabel st + component_count cc c - 1\<rparr>"
proof -
  obtain n L where nl: "cc c = (n, L)"
    by (cases "cc c")
  have cc: "connectedComponents env (erodeMask env erodeSize (colorMask lbls h w c)) 8 = (n, L)"
    using nl by (simp add: assms(3) colorComponents_def)
  let ?f = "\<lambda>mk (y, x). let component = intAt L y x
                          in if component > 0 then put mk y x (nextLabel st + component - 1)
                             else mk"
  let ?val = "\<lambda>y x. if intAt L y x > 0 then Some (nextLabel st + intAt L y x - 1) else None"
  have "foldl ?f (markers st) (scan h w)
        = (markers st)\<lparr>mdata := map (\<lambda>i. case ?val (i div w) (i mod w) of
                                 Some v \<Rightarrow> v | None \<Rightarrow> mdata (markers st) ! i) [0..<h * w]\<rparr>"
    by (rule foldl_put_scan) (simp_all add: assms(1,2) Let_def)
  also have "\<dots> = \<lparr>rows = h, cols = w, mtype = CV_32S,
         mdata = map (\<lambda>i. if component_at cc c (i div w) (i mod w) > 0
                           then nextLabel st + component_at cc c (i div w) (i mod w) - 1
                           else ds ! i) [0..<h * w]\<rparr>"
    by (simp add: assms(1,2) component_at_def nl)
  finally have mk: "foldl ?f (markers st) (scan h w) = \<dots>" .
  show ?thesis
    unfolding colorStep_def Let_def cc
    by (simp add: mk [unfolded Let_def] foldl_record_ids component_count_def nl)
qed

lemma first_id_step:
  assumes "0 \<le> c"
  shows "first_id cc (c + 1) = first_id cc c + component_count cc c - 1"
proof -
  have "[0..c + 1 - 1] = [0..c - 1] @ [c]"
    using assms upto_rec2 [of 0 c] by simp
  then show ?thesis by (simp add: first_id_def)
qed

lemma first_id_Suc:
  "first_id cc (1 + int k) = first_id cc (int k) + component_count cc (int k) - 1"
  using first_id_step [of "int k" cc] by (simp add: add.commute)

lemma first_id_0: "first_id cc 0 = 1"
  by (simp add: first_id_def)

lemma markerLoop_upt:
  assumes "cc = colorComponents env lbls h w erodeSize"
  shows "foldl (colorStep env lbls h w erodeSize)
           \<lparr>markers = zeros h w CV_32S, m2c = Map.empty, nextLabel = 1\<rparr> (map int [0..<k])
         = \<lparr>markers = \<lparr>rows = h, cols = w, mtype = CV_32S,
               mdata = map (\<lambda>i. marker_after cc k (i div w) (i mod w)) [0..<h * w]\<rparr>,
            m2c = map_after cc k,
            nextLabel = first_id cc (int k)\<rparr>"
proof (induction k)
  case 0
  show ?case by (simp add: zeros_def first_id_0 map_replicate_const)
next
  case (Suc k)
  let ?st = "\<lparr>markers = \<lparr>rows = h, cols = w, mtype = CV_32S,
               mdata = map (\<lambda>i. marker_after cc k (i div w) (i mod w)) [0..<h * w]\<rparr>,
            m2c = map_after cc k,
            nextLabel = first_id cc (int k)\<rparr>"
  have "colorStep env lbls h w erodeSize ?st (int k) =
     \<lparr>markers = \<lparr>rows = h, cols = w, mtype = CV_32S,
         mdata = map (\<lambda>i. if component_at cc (int k) (i div w) (i mod w) > 0
                           then nextLabel ?st + component_at cc (int k) (i div w) (i mod w) - 1
                           else map (\<lambda>i. marker_after cc k (i div w) (i mod w))
                                  [0..<h * w] ! i) [0..<h * w]\<rparr>,
      m2c = (\<lambda>i. if nextLabel ?st \<le> i
                    \<and> i \<le> nextLabel ?st + component_count cc (int k) - 2
                  then Some (int k + 1) else m2c ?st i),
      nextLabel = nextLabel ?st + component_count cc (int k) - 1\<rparr>"
    by (rule colorStep_eq [OF _ _ assms]) simp_all
  then show ?case
    using Suc by (simp add: first_id_Suc marker_id_def fun_eq_iff)
qed

lemma markerLoop_eq:
  assumes "cc = colorComponents env lbls (rows q) (cols q) (erodeSize_of complexity)"
  shows "markerLoop env q lbls numColors complexity
         = \<lparr>markers = \<lparr>rows = rows q, cols = cols q, mtype = CV_32S,
               mdata = map (\<lambda>i. marker_after cc (nat numColors) (i div cols q) (i mod cols q))
                         [0..<rows q * cols q]\<rparr>,
            m2c = map_after cc (nat numColors),
            nextLabel = first_id cc (int (nat numColors))\<rparr>"
proof -
  have "[0..numColors - 1] = map int [0..<nat numColors]"
  proof (cases "0 \<le> numColors")
    case True
    then show ?thesis using upto_as_upt [of "nat numColors"] by simp
  next
    case False
    then show ?thesis by simp
  qed
  then show ?thesis
    unfolding markerLoop_def
    using markerLoop_upt [OF assms, of "nat numColors"] by simp
qed

text \<open>With every component count at least 1, the first ids of the colours ascend.\<close>

lemma component_count_ge:
  assumes "components_in_range env"
  shows "1 \<le> component_count (colorComponents env lbls h w erodeSize) c"
  using assms by (simp add: components_in_range_def component_count_def colorComponents_def)

lemma first_id_mono:
  assumes "\<And>c. 1 \<le> component_count cc c" and "k \<le> k'"
  shows "first_id cc (int k) \<le> first_id cc (int k')"
  using assms(2)
proof (induction k' rule: dec_induct)
  case base
  then show ?case by simp
next
  case (step n)
  have "first_id cc (int (Suc n)) = first_id cc (int n) + component_count cc (int n) - 1"
    using first_id_Suc [of cc n] by (simp add: add.commute)
  then show ?case
    using step.IH assms(1) [of "int n"] by simp
qed

lemma first_id_ge_1:
  assumes "\<And>c. 1 \<le> component_count cc c"
  shows "1 \<le> first_id cc (int k)"
  using first_id_mono [of cc 0 k] assms by (simp add: first_id_0)

lemma marker_id_less_next:
  assumes "k < component_count cc (int c)"
  shows "marker_id cc (int c) k < first_id cc (1 + int c)"
  using assms first_id_Suc [of cc c] by (simp add: marker_id_def)

lemma first_id_mono_Suc:
  assumes "\<And>c. 1 \<le> component_count cc c" and "c < n"
  shows "first_id cc (1 + int c) \<le> first_id cc (int n)"
  using first_id_mono [of cc "Suc c" n] assms by simp

lemma map_after_Some:
  assumes "\<And>c. 1 \<le> component_count cc c"
  shows "map_after cc n i = Some v \<longleftrightarrow>
     (\<exists>c < n. \<exists>k. 1 \<le> k \<and> k < component_count cc (int c)
         \<and> i = marker_id cc (int c) k \<and> v = int c + 1)"
proof (induction n)
  case 0
  then show ?case by simp
next
  case (Suc n)
  let ?b = "first_id cc (int n)" and ?n = "component_count cc (int n)"
  show ?case
  proof (cases "?b \<le> i \<and> i \<le> ?b + ?n - 2")
    case True
    have new: "1 \<le> i - ?b + 1" "i - ?b + 1 < ?n" "i = marker_id cc (int n) (i - ?b + 1)"
      using True by (simp_all add: marker_id_def)
    have old: "\<not> (c < n \<and> 1 \<le> k \<and> k < component_count cc (int c)
                   \<and> i = marker_id cc (int c) k)" for c k
    proof
      assume a: "c < n \<and> 1 \<le> k \<and> k < component_count cc (int c)
                   \<and> i = marker_id cc (int c) k"
      then have "i < first_id cc (1 + int c)"
        using marker_id_less_next [of k cc c] by simp
      also have "\<dots> \<le> ?b"
        using a first_id_mono_Suc [of cc c n] assms by simp
      finally show False using True by simp
    qed
    show ?thesis
    proof
      assume "map_after cc (Suc n) i = Some v"
      then have "v = int n + 1" using True by simp
      with new show "\<exists>c < Suc n. \<exists>k. 1 \<le> k \<and> k < component_count cc (int c)
         \<and> i = marker_id cc (int c) k \<and> v = int c + 1"
        by blast
    next
      assume "\<exists>c < Suc n. \<exists>k. 1 \<le> k \<and> k < component_count cc (int c)
         \<and> i = marker_id cc (int c) k \<and> v = int c + 1"
      then obtain c k where ck: "c < Suc n" "1 \<le> k" "k < component_count cc (int c)"
        "i = marker_id cc (int c) k" "v = int c + 1"
        by blast
      have "c = n" using ck old [of c k] by (cases "c < n") auto
      then show "map_after cc (Suc n) i = Some v"
        using True ck by simp
    qed
  next
    case False
    have "\<not> (1 \<le> k \<and> k < ?n \<and> i = marker_id cc (int n) k)" for k
      using False by (auto simp: marker_id_def)
    then have "(\<exists>c < Suc n. \<exists>k. 1 \<le> k \<and> k < component_count cc (int c)
         \<and> i = marker_id cc (int c) k \<and> v = int c + 1)
      \<longleftrightarrow> (\<exists>c < n. \<exists>k. 1 \<le> k \<and> k < component_count cc (int c)
         \<and> i = marker_id cc (int c) k \<and> v = int c + 1)"
      by (auto simp: less_Suc_eq)
    moreover have "map_after cc (Suc n) i = map_after cc n i"
      using False by auto
    ultimately show ?thesis using Suc by simp
  qed
qed

lemma marker_id_unique:
  assumes "\<And>c. 1 \<le> component_count cc c"
    and "1 \<le> k" and "k < component_count cc (int c)"
    and "1 \<le> k'" and "k' < component_count cc (int c')"
    and "marker_id cc (int c) k = marker_id cc (int c') k'"
  shows "c = c' \<and> k = k'"
proof -
  have less: False
    if "a < b" and "1 \<le> j'" and "j < component_count cc (int a)"
      and "marker_id cc (int a) j = marker_id cc (int b) j'" for a b j j'
  proof -
    have "marker_id cc (int a) j < first_id cc (1 + int a)"
      using that(3) by (rule marker_id_less_next)
    also have "\<dots> \<le> first_id cc (int b)"
      using that(1) first_id_mono_Suc [of cc a b] assms(1) by simp
    also have "\<dots> \<le> marker_id cc (int b) j'"
      using that(2) by (simp add: marker_id_def)
    finally show False using that(4) by simp
  qed
  have "c = c'"
    using less [of c c' k' k] less [of c' c k k'] assms(2-6)
    by (cases c c' rule: linorder_cases) auto
  then show ?thesis using assms(6) by (simp add: marker_id_def)
qed

lemma marker_after_last:
  assumes "c < n" and "0 < component_at cc (int c) y x"
    and "\<forall>c'. c < c' \<and> c' < n \<longrightarrow> component_at cc (int c') y x \<le> 0"
  shows "marker_after cc n y x = marker_id cc (int c) (component_at cc (int c) y x)"
  using assms
proof (induction n)
  case 0
  then show ?case by simp
next
  case (Suc n)
  show ?case
  proof (cases "c = n")
    case True
    then show ?thesis using Suc.prems by simp
  next
    case False
    then have "c < n" using Suc.prems by simp
    moreover have "\<not> 0 < component_at cc (int n) y x"
      using Suc.prems(3) \<open>c < n\<close> by (simp add: not_less)
    ultimately show ?thesis using Suc by simp
  qed
qed

lemma marker_after_none:
  assumes "\<forall>c < n. component_at cc (int c) y x \<le> 0"
  shows "marker_after cc n y x = 0"
  using assms by (induction n) (simp_all add: not_less [symmetric])

lemma marker_after_positive:
  assumes "0 < marker_after cc n y x"
  shows "\<exists>c < n. 0 < component_at cc (int c) y x
           \<and> marker_after cc n y x = marker_id cc (int c) (component_at cc (int c) y x)"
  using assms
proof (induction n)
  case 0
  then show ?case by simp
next
  case (Suc n)
  show ?case
  proof (cases "0 < component_at cc (int n) y x")
    case True
    then show ?thesis by auto
  next
    case False
    then obtain c where "c < n" "0 < component_at cc (int c) y x"
      "marker_after cc n y x = marker_id cc (int c) (component_at cc (int c) y x)"
      using Suc by auto
    then show ?thesis using False by (auto simp: less_Suc_eq)
  qed
qed

lemma markers_at:
  assumes "cc = colorComponents env lbls (rows q) (cols q) (erodeSize_of complexity)"
    and "y < rows q" and "x < cols q"
  shows "intAt (fst (createMarkers env this q lbls numColors complexity)) y x
         = marker_after cc (nat numColors) y x"
  using assms(2,3) index_in_range [OF assms(2,3)]
  by (simp add: createMarkers_def markerLoop_eq [OF assms(1)] intAt_def elem_def)

lemma colorMap_createMarkers:
  assumes "cc = colorComponents env lbls (rows q) (cols q) (erodeSize_of complexity)"
  shows "colorMap (snd (createMarkers env this q lbls numColors complexity))
         = map_after cc (nat numColors)"
  by (simp add: createMarkers_def markerLoop_eq [OF assms] colorMap_def)

text \<open>For the four complexity levels the loop runs the labelling on the eroded mask.\<close>

lemma spec_radius_erodeSize:
  assumes "spec_radius complexity = Some r"
  shows "erodeSize_of complexity = Some r" and "0 < r"
  using assms
  by (auto simp: spec_radius_def erodeSize_of_def erodeSizes_def split: if_splits)

lemma colorComponents_eroded:
  assumes "0 < r"
  shows "colorComponents env lbls h w (Some r) = spec_components env lbls h w r"
  using assms
  by (simp add: fun_eq_iff colorComponents_def erodeMask_def colorMask_eq spec_components_def
      mult.commute)

lemma toy_components_in_range: "components_in_range toy_env"
  by (auto simp: components_in_range_def toy_env_def toy_connectedComponents_def)

lemma toy_flood_keeps_ids: "flood_keeps_ids toy_env"
  by (simp add: flood_keeps_ids_def toy_env_def)

text \<open>
  The \<^verbatim>\<open>createMarkers\<close> of the pipeline. Let \<open>r\<close> be the radius of the complexity level: 5,
  3, 2, 1 for low, medium, high, extreme. For each colour index \<open>c\<close> of \<open>0..K-1\<close>, on its
  own, let \<open>cc c\<close> be what 8-connected labelling finds in the mask of the pixels of cluster
  \<open>c\<close> eroded by the ellipse of size \<open>2 r + 1\<close> (\<open>spec_components\<close>). Then \<^verbatim>\<open>createMarkers\<close>
  erodes by that radius; it records for every component \<open>k\<close> of every colour \<open>c\<close> the id
  \<open>marker_id cc c k\<close> with the 1-based colour index \<open>c + 1\<close>, and records nothing else; the
  ids are positive and differ for different components; and in the marker image a pixel
  of a component carries the component's id (of the last colour that covers it) and a
  pixel of no component carries 0. The labelling counts the background, so its count is
  at least 1, and its labels stay below its count.
\<close>

theorem createMarkers_per_color:
  assumes "spec_radius complexity = Some r" and "components_in_range env"
    and "cc = spec_components env lbls (rows q) (cols q) r"
  shows "erodeSize_of complexity = Some r
    \<and> (\<forall>c \<in> {0..<numColors}. \<forall>k \<in> {1..<component_count cc c}.
          colorMap (snd (createMarkers env this q lbls numColors complexity))
            (marker_id cc c k) = Some (c + 1))
    \<and> (\<forall>i v. colorMap (snd (createMarkers env this q lbls numColors complexity)) i = Some v
          \<longrightarrow> 1 \<le> i
              \<and> (\<exists>c \<in> {0..<numColors}. \<exists>k \<in> {1..<component_count cc c}.
                    i = marker_id cc c k \<and> v = c + 1))
    \<and> (\<forall>c \<in> {0..<numColors}. \<forall>c' \<in> {0..<numColors}.
        \<forall>k \<in> {1..<component_count cc c}. \<forall>k' \<in> {1..<component_count cc c'}.
          marker_id cc c k = marker_id cc c' k' \<longrightarrow> c = c' \<and> k = k')
    \<and> (\<forall>y < rows q. \<forall>x < cols q. \<forall>c \<in> {0..<numColors}.
          0 < component_at cc c y x
          \<and> (\<forall>c' \<in> {c<..<numColors}. component_at cc c' y x \<le> 0)
          \<longrightarrow> intAt (fst (createMarkers env this q lbls numColors complexity)) y x
              = marker_id cc c (component_at cc c y x))
    \<and> (\<forall>y < rows q. \<forall>x < cols q.
          (\<forall>c \<in> {0..<numColors}. component_at cc c y x \<le> 0)
          \<longrightarrow> intAt (fst (createMarkers env this q lbls numColors complexity)) y x = 0)"
proof -
  let ?h = "rows q" and ?w = "cols q" and ?K = "nat numColors"
  let ?cm = "colorMap (snd (createMarkers env this q lbls numColors complexity))"
  let ?mk = "fst (createMarkers env this q lbls numColors complexity)"
  have r: "erodeSize_of complexity = Some r" and pos: "0 < r"
    using spec_radius_erodeSize [OF assms(1)] by simp_all
  have cc: "cc = colorComponents env lbls ?h ?w (erodeSize_of complexity)"
    using assms(3) colorComponents_eroded [OF pos] r by simp
  have counts: "1 \<le> component_count cc c" for c
    unfolding cc by (rule component_count_ge [OF assms(2)])
  have cm: "?cm = map_after cc ?K"
    by (rule colorMap_createMarkers [OF cc])
  have mk: "intAt ?mk y x = marker_after cc ?K y x" if "y < ?h" "x < ?w" for y x
    using that by (rule markers_at [OF cc])
  have A: "\<forall>c \<in> {0..<numColors}. \<forall>k \<in> {1..<component_count cc c}.
             ?cm (marker_id cc c k) = Some (c + 1)"
  proof (intro ballI)
    fix c k
    assume c: "c \<in> {0..<numColors}" and k: "k \<in> {1..<component_count cc c}"
    then have "nat c < ?K" and "int (nat c) = c" by auto
    then show "?cm (marker_id cc c k) = Some (c + 1)"
      using k unfolding cm map_after_Some [OF counts]
      by (intro exI [of _ "nat c"]) auto
  qed
  have B: "\<forall>i v. ?cm i = Some v \<longrightarrow> 1 \<le> i
              \<and> (\<exists>c \<in> {0..<numColors}. \<exists>k \<in> {1..<component_count cc c}.
                    i = marker_id cc c k \<and> v = c + 1)"
  proof (intro allI impI)
    fix i v
    assume "?cm i = Some v"
    then obtain c k where ck: "c < ?K" "1 \<le> k" "k < component_count cc (int c)"
      "i = marker_id cc (int c) k" "v = int c + 1"
      unfolding cm map_after_Some [OF counts] by blast
    have "1 \<le> i"
      using ck first_id_ge_1 [OF counts, of c] by (simp add: marker_id_def)
    moreover have "int c \<in> {0..<numColors}" using ck by auto
    moreover have "k \<in> {1..<component_count cc (int c)}" using ck by auto
    ultimately show "1 \<le> i
              \<and> (\<exists>c \<in> {0..<numColors}. \<exists>k \<in> {1..<component_count cc c}.
                    i = marker_id cc c k \<and> v = c + 1)"
      using ck by blast
  qed
  have C: "\<forall>c \<in> {0..<numColors}. \<forall>c' \<in> {0..<numColors}.
        \<forall>k \<in> {1..<component_count cc c}. \<forall>k' \<in> {1..<component_count cc c'}.
          marker_id cc c k = marker_id cc c' k' \<longrightarrow> c = c' \<and> k = k'"
  proof (intro ballI impI)
    fix c c' k k'
    assume c: "c \<in> {0..<numColors}" and c': "c' \<in> {0..<numColors}"
      and k: "k \<in> {1..<component_count cc c}"
      and k': "k' \<in> {1..<component_count cc c'}"
      and eq: "marker_id cc c k = marker_id cc c' k'"
    have ic: "int (nat c) = c" "int (nat c') = c'" using c c' by auto
    have "nat c = nat c' \<and> k = k'"
      using marker_id_unique [OF counts, of k "nat c" k' "nat c'", unfolded ic] k k' eq
      by simp
    then show "c = c' \<and> k = k'" using ic by metis
  qed
  have D: "\<forall>y < ?h. \<forall>x < ?w. \<forall>c \<in> {0..<numColors}.
          0 < component_at cc c y x
          \<and> (\<forall>c' \<in> {c<..<numColors}. component_at cc c' y x \<le> 0)
          \<longrightarrow> intAt ?mk y x = marker_id cc c (component_at cc c y x)"
  proof (intro allI impI ballI)
    fix y x c
    assume y: "y < ?h" and x: "x < ?w" and c: "c \<in> {0..<numColors}"
      and p: "0 < component_at cc c y x
          \<and> (\<forall>c' \<in> {c<..<numColors}. component_at cc c' y x \<le> 0)"
    have ic: "int (nat c) = c" and lt: "nat c < ?K" using c by auto
    have later: "\<forall>c'. nat c < c' \<and> c' < ?K \<longrightarrow> component_at cc (int c') y x \<le> 0"
    proof (intro allI impI)
      fix c'
      assume "nat c < c' \<and> c' < ?K"
      then have "int c' \<in> {c<..<numColors}" using c by auto
      then show "component_at cc (int c') y x \<le> 0" using p by blast
    qed
    show "intAt ?mk y x = marker_id cc c (component_at cc c y x)"
      using marker_after_last [OF lt _ later, unfolded ic] p by (simp add: mk [OF y x])
  qed
  have E: "\<forall>y < ?h. \<forall>x < ?w.
          (\<forall>c \<in> {0..<numColors}. component_at cc c y x \<le> 0) \<longrightarrow> intAt ?mk y x = 0"
  proof (intro allI impI)
    fix y x
    assume y: "y < ?h" and x: "x < ?w"
      and p: "\<forall>c \<in> {0..<numColors}. component_at cc c y x \<le> 0"
    have "\<forall>c < ?K. component_at cc (int c) y x \<le> 0"
    proof (intro allI impI)
      fix c
      assume "c < ?K"
      then have "int c \<in> {0..<numColors}" by auto
      then show "component_at cc (int c) y x \<le> 0" using p by blast
    qed
    then show "intAt ?mk y x = 0"
      using marker_after_none by (simp add: mk [OF y x])
  qed
  show ?thesis
    using r A B C D E by blast
qed

theorem createMarkers_per_color_witness:
  "spec_radius ''extreme'' = Some 1 \<and> components_in_range toy_env
   \<and> erodeSize_of ''extreme'' = Some 1
   \<and> component_count (spec_components toy_env strip_labels 1 3 1) 0 = 2
   \<and> marker_id (spec_components toy_env strip_labels 1 3 1) 0 1 = 1
   \<and> colorMap (snd (createMarkers toy_env constructor strip_quantized strip_labels 2
                       ''extreme'')) 1 = Some 1
   \<and> component_count (spec_components toy_env strip_labels 1 3 1) 1 = 2
   \<and> marker_id (spec_components toy_env strip_labels 1 3 1) 1 1 = 2
   \<and> colorMap (snd (createMarkers toy_env constructor strip_quantized strip_labels 2
                       ''extreme'')) 2 = Some 2
   \<and> component_at (spec_components toy_env strip_labels 1 3 1) 1 0 2 = 1
   \<and> intAt (fst (createMarkers toy_env constructor strip_quantized strip_labels 2
                    ''extreme'')) 0 2 = 2"
proof -
  let ?cc = "spec_components toy_env strip_labels 1 3 1"
  let ?cm = "colorMap (snd (createMarkers toy_env constructor strip_quantized strip_labels 2
                       ''extreme''))"
  let ?mk = "fst (createMarkers toy_env constructor strip_quantized strip_labels 2 ''extreme'')"
  have h1: "spec_radius ''extreme'' = Some 1" by code_simp
  have rq: "rows strip_quantized = 1" "cols strip_quantized = 3" by code_simp+
  have h3: "?cc = spec_components toy_env strip_labels (rows strip_quantized)
                    (cols strip_quantized) 1"
    unfolding rq ..
  have n0: "component_count ?cc 0 = 2" and n1: "component_count ?cc 1 = 2"
    by code_simp+
  have i0: "marker_id ?cc 0 1 = 1" and i1: "marker_id ?cc 1 1 = 2"
    by code_simp+
  have p: "component_at ?cc 1 0 2 = 1" by code_simp
  note t = createMarkers_per_color [OF h1 toy_components_in_range h3,
      where numColors = 2 and this = constructor, unfolded rq]
  have e: "erodeSize_of ''extreme'' = Some 1" by (rule t [THEN conjunct1])
  have A: "\<forall>c \<in> {0..<2}. \<forall>k \<in> {1..<component_count ?cc c}.
             ?cm (marker_id ?cc c k) = Some (c + 1)"
    by (rule t [THEN conjunct2, THEN conjunct1])
  have m1: "?cm 1 = Some 1" using A [rule_format, of 0 1] n0 i0 by simp
  have m2: "?cm 2 = Some 2" using A [rule_format, of 1 1] n1 i1 by simp
  have D: "\<forall>y < 1. \<forall>x < 3. \<forall>c \<in> {0..<2}.
          0 < component_at ?cc c y x
          \<and> (\<forall>c' \<in> {c<..<2}. component_at ?cc c' y x \<le> 0)
          \<longrightarrow> intAt ?mk y x = marker_id ?cc c (component_at ?cc c y x)"
    by (rule t [THEN conjunct2, THEN conjunct2, THEN conjunct2, THEN conjunct2,
          THEN conjunct1])
  have "{1<..<2::int} = {}" by auto
  then have px: "intAt ?mk 0 2 = 2" using D [rule_format, of 0 2 1] p i1 by simp
  show ?thesis
    using h1 toy_components_in_range e n0 n1 i0 i1 m1 m2 p px by simp
qed


subsection \<open>The colour of a region\<close>

lemma process_Inr:
  assumes "process env this imageData opts = (this', lg, Inr res)"
  shows "\<exists>pre qr mk wm.
     loaded env
     \<and> preprocess env imageData (maxSize_of opts) = Inr pre
     \<and> quantize env pre (colorCount_of opts) = Inr qr
     \<and> createMarkers env this (quantized qr) (labels qr) (colorCount_of opts)
          (complexity_of opts) = (mk, this')
     \<and> applyWatershed env (quantized qr) mk = Inr wm
     \<and> res = \<lparr>regions = extractRegions env this' wm (quantized qr) (palette qr)
                             (minRegionSize_of opts),
              res_palette = palette qr, res_width = img_width pre,
              res_height = img_height pre\<rparr>"
  using assms
  by (auto simp: process_def Let_def split: if_splits sum.splits prod.splits)

lemma applyWatershed_ids:
  assumes "flood_keeps_ids env" and "applyWatershed env q mk = Inr wm"
    and "v \<in> set (mdata wm)" and "0 < v"
  shows "v \<in> set (mdata mk)"
proof -
  from assms(2) obtain rgbm mk32 where w: "watershed env rgbm mk32 = Inr wm"
    and m: "mdata mk32 = mdata mk"
    by (auto simp: applyWatershed_def Let_def split: sum.splits if_splits)
  from assms(1) w assms(3,4) have "v \<in> set (mdata mk32)"
    unfolding flood_keeps_ids_def by blast
  then show ?thesis using m by simp
qed

lemma uniqueLabels_in_data:
  assumes "l \<in> set (uniqueLabels wm)"
  shows "0 < l \<and> l \<in> set (mdata wm)"
proof -
  from assms obtain y x where "0 < l" and "intAt wm y x = l"
    by (auto simp: uniqueLabels_set)
  then show ?thesis
    by (auto simp: intAt_def elem_def split: if_splits)
qed

lemma component_in_range:
  assumes "components_in_range env"
    and "cc = colorComponents env lbls h w erodeSize"
    and "0 < component_at cc c y x"
  shows "component_at cc c y x < component_count cc c"
proof -
  have "component_at cc c y x \<in> set (mdata (snd (cc c)))"
    using assms(3) by (auto simp: component_at_def intAt_def elem_def split: if_splits)
  then show ?thesis
    using assms(1)
    by (simp add: assms(2) components_in_range_def component_count_def colorComponents_def)
qed

lemma map_after_recorded:
  assumes "\<And>c. 1 \<le> component_count cc c" and "c < n" and "1 \<le> k"
    and "k < component_count cc (int c)"
  shows "map_after cc n (marker_id cc (int c) k) = Some (int c + 1)"
  unfolding map_after_Some [OF assms(1)] using assms(2-4) by blast

text \<open>Every seed id in the marker image is recorded in the colour map.\<close>

lemma marker_ids_recorded:
  assumes "components_in_range env"
    and "v \<in> set (mdata (fst (createMarkers env this q lbls numColors complexity)))"
    and "0 < v"
  shows "\<exists>c. 0 \<le> c \<and> c < numColors
           \<and> colorMap (snd (createMarkers env this q lbls numColors complexity)) v
               = Some (c + 1)"
proof -
  let ?h = "rows q" and ?w = "cols q"
  define cc where "cc = colorComponents env lbls ?h ?w (erodeSize_of complexity)"
  have counts: "1 \<le> component_count cc c" for c
    unfolding cc_def by (rule component_count_ge [OF assms(1)])
  from assms(2) obtain i where "v = marker_after cc (nat numColors) (i div ?w) (i mod ?w)"
    by (auto simp: createMarkers_def markerLoop_eq [OF cc_def])
  with assms(3) marker_after_positive [of cc "nat numColors" "i div ?w" "i mod ?w"]
  obtain c where c: "c < nat numColors"
    and pos: "0 < component_at cc (int c) (i div ?w) (i mod ?w)"
    and v: "v = marker_id cc (int c) (component_at cc (int c) (i div ?w) (i mod ?w))"
    by auto
  have "map_after cc (nat numColors) v = Some (int c + 1)"
    unfolding v
    using c pos component_in_range [OF assms(1) cc_def pos]
    by (intro map_after_recorded [OF counts]) simp_all
  then show ?thesis
    using c by (intro exI [of _ "int c"]) (simp add: colorMap_createMarkers [OF cc_def])
qed

lemma length_buildPalette: "length (buildPalette rgbm lbls numColors) = nat numColors"
  by (simp add: buildPalette_def)

text \<open>
  Claim C1. In a pipeline run that returns a result, with a labelling whose labels stay
  below its component count and a flooding that only spreads seed ids (as OpenCV's do),
  the palette has \<open>K\<close> entries, the processor after the run is the one that \<^verbatim>\<open>createMarkers\<close>
  left when it ran on the quantized image of this run, and every returned region has a
  \<open>colorId\<close> between 1 and \<open>K\<close> that is the 1-based palette index which the colour map of
  that processor records for the region's label.
\<close>

theorem colorId_traceable:
  assumes "components_in_range env" and "flood_keeps_ids env"
    and "process env this imageData opts = (this', lg, Inr res)"
  shows "length (res_palette res) = nat (colorCount_of opts)
    \<and> (\<exists>pre qr mk.
          preprocess env imageData (maxSize_of opts) = Inr pre
          \<and> quantize env pre (colorCount_of opts) = Inr qr
          \<and> res_palette res = palette qr
          \<and> createMarkers env this (quantized qr) (labels qr) (colorCount_of opts)
               (complexity_of opts) = (mk, this'))
    \<and> (\<forall>reg \<in> set (regions res).
          1 \<le> colorId reg \<and> colorId reg \<le> int (length (res_palette res))
          \<and> colorMap this' (region_id reg) = Some (colorId reg))"
proof -
  from process_Inr [OF assms(3)]
  obtain pre qr mk wm where pre: "preprocess env imageData (maxSize_of opts) = Inr pre"
    and q: "quantize env pre (colorCount_of opts) = Inr qr"
    and cm: "createMarkers env this (quantized qr) (labels qr) (colorCount_of opts)
               (complexity_of opts) = (mk, this')"
    and ws: "applyWatershed env (quantized qr) mk = Inr wm"
    and res: "res = \<lparr>regions = extractRegions env this' wm (quantized qr) (palette qr)
                             (minRegionSize_of opts),
              res_palette = palette qr, res_width = img_width pre,
              res_height = img_height pre\<rparr>"
    by blast
  have len: "length (palette qr) = nat (colorCount_of opts)"
    using quantize_Inr [OF q] by (auto simp: length_buildPalette)
  have reg: "1 \<le> colorId reg \<and> colorId reg \<le> int (length (palette qr))
          \<and> colorMap this' (region_id reg) = Some (colorId reg)"
    if "reg \<in> set (extractRegions env this' wm (quantized qr) (palette qr)
                      (minRegionSize_of opts))" for reg
  proof -
    from that obtain l where l: "l \<in> set (uniqueLabels wm)"
      and id: "region_id reg = l"
      and cid: "colorId reg = colorIdOf (colorMap this') l (length (palette qr))"
      by (auto simp: extractRegions_set regionOf_Some)
    have "0 < l" and "l \<in> set (mdata wm)" using uniqueLabels_in_data [OF l] by simp_all
    then have "l \<in> set (mdata mk)" using applyWatershed_ids [OF assms(2) ws] by simp
    then obtain c where c: "0 \<le> c" "c < colorCount_of opts"
      and m: "colorMap this' l = Some (c + 1)"
      using marker_ids_recorded [OF assms(1), of l this "quantized qr" "labels qr"
          "colorCount_of opts" "complexity_of opts"] \<open>0 < l\<close> cm
      by auto
    have "colorId reg = c + 1"
      using c m len by (simp add: cid colorIdOf_def)
    then show ?thesis using c m len id by simp
  qed
  have ex: "\<exists>pre qr mk.
          preprocess env imageData (maxSize_of opts) = Inr pre
          \<and> quantize env pre (colorCount_of opts) = Inr qr
          \<and> res_palette res = palette qr
          \<and> createMarkers env this (quantized qr) (labels qr) (colorCount_of opts)
               (complexity_of opts) = (mk, this')"
    using pre q cm unfolding res by auto
  show ?thesis
    using len ex reg unfolding res by simp
qed

theorem colorId_traceable_witness:
  "components_in_range toy_env \<and> flood_keeps_ids toy_env
   \<and> map region_id
        (regions (projr (snd (snd (process toy_env constructor strip_image (settings 2 2))))))
       = [1]
   \<and> map colorId
        (regions (projr (snd (snd (process toy_env constructor strip_image (settings 2 2))))))
       = [1]
   \<and> length
        (res_palette (projr (snd (snd (process toy_env constructor strip_image (settings 2 2))))))
       = 2
   \<and> colorMap (fst (process toy_env constructor strip_image (settings 2 2))) 1 = Some 1"
proof -
  let ?p = "process toy_env constructor strip_image (settings 2 2)"
  let ?res = "projr (snd (snd ?p))"
  have "snd (snd ?p) = Inr ?res" by code_simp
  then have h: "?p = (fst ?p, fst (snd ?p), Inr ?res)" by (simp add: prod_eq_iff)
  have ids: "map region_id (regions ?res) = [1]" and cids: "map colorId (regions ?res) = [1]"
    by code_simp+
  then obtain reg where r: "regions ?res = [reg]" "region_id reg = 1" "colorId reg = 1"
    by auto
  have k: "colorCount_of (settings 2 2) = 2" by code_simp
  note t = colorId_traceable [OF toy_components_in_range toy_flood_keeps_ids h]
  have "length (res_palette ?res) = nat (colorCount_of (settings 2 2))"
    using t by (rule conjunct1)
  then have "length (res_palette ?res) = 2" unfolding k by simp
  moreover have "\<forall>reg \<in> set (regions ?res).
          1 \<le> colorId reg \<and> colorId reg \<le> int (length (res_palette ?res))
          \<and> colorMap (fst ?p) (region_id reg) = Some (colorId reg)"
    using t by (rule conjunct2 [THEN conjunct2])
  then have "colorMap (fst ?p) 1 = Some 1" using r by simp
  ultimately show ?thesis
    using toy_components_in_range toy_flood_keeps_ids ids cids by simp
qed

end
